theory Spec2Isabelle
  imports Complex_Main "HOL-Library.Sublist"
begin

section \<open>Smart e-meter firmware: data model\<close>

text \<open>
  The firmware is one C++ translation unit (the Arduino sketch of the repository).
  Bytes and C characters are \<open>char\<close> (8 bits). Its \<^verbatim>\<open>float\<close> is IEEE 754 single
  precision, modelled below with its rounding, its infinities, its signed zeros and NaN.
\<close>

section \<open>Single-precision floats\<close>

text \<open>
  A \<^verbatim>\<open>float\<close> is a sign with a magnitude, an infinity with a sign, or NaN. The
  magnitude of a value of the format is not negative and is a multiple of the spacing of
  its binade; no property below depends on that. Every
  operation computes the exact result and rounds it once to the nearest value of the
  format, a tie going to the even significand (the default rounding mode); the sketch's
  statements are evaluated one operation at a time, without fused multiply-add.

  \<open>binade m\<close> is the exponent of the binade of \<open>m\<close>, from \<open>-126\<close> (where the subnormal
  numbers share the spacing \<open>pow2 (- 149)\<close>) up to 128; the significand has 24 bits, so
  the spacing in the binade is \<open>pow2 (binade m - 23)\<close>; a rounded magnitude of \<open>pow2 128\<close>
  or more overflows to infinity.
\<close>

datatype f32 = Finite bool real | Infinity bool | NaN

abbreviation zero32 :: f32 where
  "zero32 \<equiv> Finite False 0"

abbreviation one32 :: f32 where
  "one32 \<equiv> Finite False 1"

definition pow2 :: "int \<Rightarrow> real" where
  "pow2 e = (if e \<ge> 0 then 2 ^ nat e else 1 / 2 ^ nat (- e))"

primrec halvings :: "nat \<Rightarrow> real \<Rightarrow> int" where
  "halvings 0 m = 0"
| "halvings (Suc k) m = (if m \<ge> 2 then 1 + halvings k (m / 2) else 0)"

primrec doublings :: "nat \<Rightarrow> real \<Rightarrow> int" where
  "doublings 0 m = 0"
| "doublings (Suc k) m = (if m < 1 then doublings k (2 * m) - 1 else 0)"

definition binade :: "real \<Rightarrow> int" where
  "binade m = (if m \<ge> 1 then halvings 128 m else doublings 126 m)"

definition round_half_even :: "real \<Rightarrow> int" where
  "round_half_even x =
     (let f = \<lfloor>x\<rfloor>; d = x - of_int f
      in if d < 1 / 2 then f else if d > 1 / 2 then f + 1 else if even f then f else f + 1)"

text \<open>
  Rounding of the exact magnitude \<open>m \<ge> 0\<close> of a result whose sign is \<open>s\<close>; a zero keeps
  the sign.
\<close>

definition round32 :: "bool \<Rightarrow> real \<Rightarrow> f32" where
  "round32 s m =
     (if m = 0 then Finite s 0
      else
        (let ulp = pow2 (binade m - 23);
             r = of_int (round_half_even (m / ulp)) * ulp
         in if r \<ge> pow2 128 then Infinity s else Finite s r))"

text \<open>A literal with suffix \<^verbatim>\<open>f\<close>, and the conversions from \<^verbatim>\<open>size_t\<close> and \<^verbatim>\<open>int\<close>.\<close>

definition f32_lit :: "real \<Rightarrow> f32" where
  "f32_lit x = round32 (x < 0) \<bar>x\<bar>"

definition f32_of_nat :: "nat \<Rightarrow> f32" where
  "f32_of_nat n = round32 False (real n)"

definition f32_of_int :: "int \<Rightarrow> f32" where
  "f32_of_int k = round32 (k < 0) \<bar>of_int k\<bar>"

definition signed_mag :: "bool \<Rightarrow> real \<Rightarrow> real" where
  "signed_mag s m = (if s then - m else m)"

fun f32_neg :: "f32 \<Rightarrow> f32" where
  "f32_neg (Finite s m) = Finite (\<not> s) m"
| "f32_neg (Infinity s) = Infinity (\<not> s)"
| "f32_neg NaN = NaN"

text \<open>
  An exact sum of zero is \<open>-0\<close> only when both operands are \<open>-0\<close>; a product or quotient
  has the exclusive or of the signs, also when it is zero or infinite.
\<close>

fun f32_add :: "f32 \<Rightarrow> f32 \<Rightarrow> f32" where
  "f32_add NaN y = NaN"
| "f32_add x NaN = NaN"
| "f32_add (Infinity s) (Infinity t) = (if s = t then Infinity s else NaN)"
| "f32_add (Infinity s) (Finite t b) = Infinity s"
| "f32_add (Finite s a) (Infinity t) = Infinity t"
| "f32_add (Finite s a) (Finite t b) =
     (let x = signed_mag s a + signed_mag t b
      in if x = 0 then Finite (s \<and> t) 0 else round32 (x < 0) \<bar>x\<bar>)"

definition f32_sub :: "f32 \<Rightarrow> f32 \<Rightarrow> f32" where
  "f32_sub x y = f32_add x (f32_neg y)"

fun f32_mul :: "f32 \<Rightarrow> f32 \<Rightarrow> f32" where
  "f32_mul NaN y = NaN"
| "f32_mul x NaN = NaN"
| "f32_mul (Infinity s) (Infinity t) = Infinity (s \<noteq> t)"
| "f32_mul (Infinity s) (Finite t b) = (if b = 0 then NaN else Infinity (s \<noteq> t))"
| "f32_mul (Finite s a) (Infinity t) = (if a = 0 then NaN else Infinity (s \<noteq> t))"
| "f32_mul (Finite s a) (Finite t b) = round32 (s \<noteq> t) (a * b)"

fun f32_div :: "f32 \<Rightarrow> f32 \<Rightarrow> f32" where
  "f32_div NaN y = NaN"
| "f32_div x NaN = NaN"
| "f32_div (Infinity s) (Infinity t) = NaN"
| "f32_div (Infinity s) (Finite t b) = Infinity (s \<noteq> t)"
| "f32_div (Finite s a) (Infinity t) = Finite (s \<noteq> t) 0"
| "f32_div (Finite s a) (Finite t b) =
     (if b = 0 then (if a = 0 then NaN else Infinity (s \<noteq> t))
      else round32 (s \<noteq> t) (a / b))"

text \<open>The comparisons \<^verbatim>\<open><\<close>, \<^verbatim>\<open>>\<close> and \<^verbatim>\<open>>=\<close>: false whenever an operand is NaN.\<close>

fun f32_lt :: "f32 \<Rightarrow> f32 \<Rightarrow> bool" where
  "f32_lt NaN y = False"
| "f32_lt x NaN = False"
| "f32_lt (Infinity s) (Infinity t) = (s \<and> \<not> t)"
| "f32_lt (Infinity s) (Finite t b) = s"
| "f32_lt (Finite s a) (Infinity t) = (\<not> t)"
| "f32_lt (Finite s a) (Finite t b) = (signed_mag s a < signed_mag t b)"

definition f32_gt :: "f32 \<Rightarrow> f32 \<Rightarrow> bool" where
  "f32_gt x y = f32_lt y x"

definition f32_ge :: "f32 \<Rightarrow> f32 \<Rightarrow> bool" where
  "f32_ge x y = (x \<noteq> NaN \<and> y \<noteq> NaN \<and> \<not> f32_lt x y)"

text \<open>
  The cast \<^verbatim>\<open>(int)\<close>: truncation toward zero. It is undefined for NaN, for an infinity and
  for a value outside the 32-bit range of \<^verbatim>\<open>int\<close>; the model returns \<open>None\<close> there.
\<close>

fun f32_to_int :: "f32 \<Rightarrow> int option" where
  "f32_to_int (Finite s m) =
     (let k = (if s then - \<lfloor>m\<rfloor> else \<lfloor>m\<rfloor>)
      in if - (2 ^ 31) \<le> k \<and> k \<le> 2 ^ 31 - 1 then Some k else None)"
| "f32_to_int (Infinity s) = None"
| "f32_to_int NaN = None"

text \<open>The equations of the operations are applied on demand only.\<close>

declare f32_add.simps [simp del] f32_mul.simps [simp del] f32_div.simps [simp del]
  f32_lt.simps [simp del] f32_to_int.simps [simp del]

section \<open>Snapshot and effects\<close>

datatype UiPhase = UI_BOOT | UI_LOADING | UI_RUN | UI_ALERT

record Metrics =
  V :: f32
  I :: f32
  P :: f32
  theft :: f32
  alert :: bool
  relay :: bool
  phase :: UiPhase
  progress :: f32

text \<open>Observable effects on the hardware, in program order.\<close>

datatype event =
    DigitalWrite nat bool
  | SerialPrintln string
  | SerialPrintf string

definition RELAY_PIN :: nat where
  "RELAY_PIN = 16"

definition RELAY_ACTIVE_LOW :: bool where
  "RELAY_ACTIVE_LOW = False"

definition STATUS_LED :: nat where
  "STATUS_LED = 2"

section \<open>Serial command parser\<close>

text \<open>
  \<^verbatim>\<open>parseCommandByte\<close> keeps two function-local statics, \<^verbatim>\<open>char buf[32]\<close> and
  \<^verbatim>\<open>size_t len\<close>. The record holds them together with the output level of the relay pin
  and the effects emitted so far.
\<close>

record cmd_state =
  buf :: "char list"
  len :: nat
  relay_level :: bool
  cmd_out :: "event list"

definition CR :: char where
  "CR = CHR 0x0D"

definition LF :: char where
  "LF = CHR 0x0A"

definition NUL :: char where
  "NUL = CHR 0x00"

definition sizeof_buf :: nat where
  "sizeof_buf = 32"

text \<open>The C string stored in a character array: the bytes before the first NUL.\<close>

definition c_str :: "char list \<Rightarrow> char list" where
  "c_str a = takeWhile (\<lambda>c. c \<noteq> NUL) a"

text \<open>\<^verbatim>\<open>strcmp(a, b) == 0\<close>.\<close>

definition strcmp_eq :: "char list \<Rightarrow> char list \<Rightarrow> bool" where
  "strcmp_eq a b = (c_str a = c_str b)"

text \<open>\<^verbatim>\<open>relayWrite(on)\<close>: \<^verbatim>\<open>digitalWrite(RELAY_PIN, RELAY_ACTIVE_LOW ? !on : on)\<close>.\<close>

definition relayWrite :: "bool \<Rightarrow> cmd_state \<Rightarrow> cmd_state" where
  "relayWrite on s =
     (let lvl = (if RELAY_ACTIVE_LOW then \<not> on else on)
      in s\<lparr>relay_level := lvl, cmd_out := cmd_out s @ [DigitalWrite RELAY_PIN lvl]\<rparr>)"

definition Serial_println :: "string \<Rightarrow> cmd_state \<Rightarrow> cmd_state" where
  "Serial_println t s = s\<lparr>cmd_out := cmd_out s @ [SerialPrintln t]\<rparr>"

definition parseCommandByte :: "char \<Rightarrow> cmd_state \<Rightarrow> cmd_state" where
  "parseCommandByte c s =
     (if c = CR then s
      else if c \<noteq> LF then
        (if len s < sizeof_buf - 1 then s\<lparr>buf := (buf s)[len s := c], len := len s + 1\<rparr> else s)
      else
        (let s1 = s\<lparr>buf := (buf s)[len s := NUL]\<rparr>;
             s2 = (if strcmp_eq (buf s1) ''RELAY:ON'' then
                     Serial_println ''OK:RELAY:ON'' (relayWrite True s1)
                   else if strcmp_eq (buf s1) ''RELAY:OFF'' then
                     Serial_println ''OK:RELAY:OFF'' (relayWrite False s1)
                   else if len s1 \<noteq> 0 then
                     Serial_println ''ERR:UNKNOWN_CMD'' s1
                   else s1)
         in s2\<lparr>len := 0\<rparr>))"

text \<open>
  \<^verbatim>\<open>handleSerialInput\<close> drains the receive queue, one \<^verbatim>\<open>parseCommandByte\<close> per byte;
  the argument is the content of the queue, oldest byte first.
\<close>

fun handleSerialInput :: "char list \<Rightarrow> cmd_state \<Rightarrow> cmd_state" where
  "handleSerialInput [] s = s"
| "handleSerialInput (c # cs) s = handleSerialInput cs (parseCommandByte c s)"

text \<open>The statics at program start (zero-initialised) with the relay off, as \<^verbatim>\<open>setup\<close> leaves it.\<close>

definition cmd_init :: cmd_state where
  "cmd_init = \<lparr>buf = replicate 32 NUL, len = 0, relay_level = False, cmd_out = []\<rparr>"

text \<open>The bytes buffered for the line in progress, and the invariant of the two statics.\<close>

definition line :: "cmd_state \<Rightarrow> char list" where
  "line s = take (len s) (buf s)"

definition cmd_wf :: "cmd_state \<Rightarrow> bool" where
  "cmd_wf s = (length (buf s) = sizeof_buf \<and> len s \<le> sizeof_buf - 1)"

section \<open>Shared snapshot store\<close>

text \<open>
  \<^verbatim>\<open>g_last\<close> is the snapshot, \<^verbatim>\<open>g_last_mtx\<close> the mutex handle (\<open>True\<close>: a valid handle,
  \<open>False\<close>: \<^verbatim>\<open>nullptr\<close>, the value before \<^verbatim>\<open>setup\<close> runs and the value
  \<^verbatim>\<open>xSemaphoreCreateMutex\<close> returns when it cannot allocate). On a valid handle
  \<^verbatim>\<open>xSemaphoreTake(g_last_mtx, portMAX_DELAY)\<close> waits for the holder, whose critical section
  is one struct copy, and returns \<^verbatim>\<open>pdTRUE\<close>. \<open>g_last_writes\<close> is a history variable: the
  values assigned to \<^verbatim>\<open>g_last\<close>, oldest first.
\<close>

record store =
  g_last :: Metrics
  g_last_mtx :: bool
  g_last_writes :: "Metrics list"

definition set_metrics :: "Metrics \<Rightarrow> 'a store_scheme \<Rightarrow> 'a store_scheme" where
  "set_metrics m s =
     (if g_last_mtx s then s\<lparr>g_last := m, g_last_writes := g_last_writes s @ [m]\<rparr> else s)"

definition get_metrics :: "'a store_scheme \<Rightarrow> Metrics" where
  "get_metrics s = (if g_last_mtx s then g_last s else g_last s)"

text \<open>The initialiser of \<^verbatim>\<open>g_last\<close>, which \<^verbatim>\<open>setup\<close> writes once more.\<close>

definition boot_metrics :: Metrics where
  "boot_metrics = \<lparr>V = zero32, I = zero32, P = zero32, theft = zero32, alert = False,
                    relay = False, phase = UI_BOOT, progress = zero32\<rparr>"

section \<open>Sampling and decision worker\<close>

text \<open>
  The model header of the classifier is not part of the sources, so its constants are
  parameters: \<open>kTotalLen\<close> is \<^verbatim>\<open>EI_CLASSIFIER_DSP_INPUT_FRAME_SIZE\<close> and \<open>kRawCount\<close> is
  \<^verbatim>\<open>EI_CLASSIFIER_RAW_SAMPLE_COUNT\<close>. The sketch compiles only if its
  \<^verbatim>\<open>static_assert(kTotalLen % kRawCount == 0)\<close> holds, which needs a non-zero divisor.
\<close>

record config =
  kTotalLen :: nat
  kRawCount :: nat

definition kModelAxes :: "config \<Rightarrow> nat" where
  "kModelAxes cfg = kTotalLen cfg div kRawCount cfg"

definition static_assert_ok :: "config \<Rightarrow> bool" where
  "static_assert_ok cfg = (kRawCount cfg \<noteq> 0 \<and> kTotalLen cfg mod kRawCount cfg = 0)"

definition EWMA_ALPHA :: f32 where
  "EWMA_ALPHA = f32_lit 0.5"

definition THEFT_THRESHOLD :: f32 where
  "THEFT_THRESHOLD = f32_lit 0.6"

definition VOTE_N :: nat where
  "VOTE_N = 3"

text \<open>The status \<^verbatim>\<open>EI_IMPULSE_OK\<close> of the classifier library is 0.\<close>

definition EI_IMPULSE_OK :: int where
  "EI_IMPULSE_OK = 0"

record ml_state = store +
  theft_prob_ewma :: f32
  vote_hist :: "int list"
  vote_hist_idx :: nat
  features :: "f32 list"
  status_led :: bool
  ml_out :: "event list"

text \<open>
  What the worker reads from the hardware at one sample: the two values the sensor driver
  returns and the level of the relay pin, which the command worker may change between any
  two samples.
\<close>

record reading =
  busVoltage_V :: f32
  current_mA :: f32
  relay_pin_high :: bool

text \<open>\<^verbatim>\<open>relayIsOn\<close>, from the level \<^verbatim>\<open>digitalRead(RELAY_PIN)\<close> returned.\<close>

definition relayIsOn :: "bool \<Rightarrow> bool" where
  "relayIsOn high = (if RELAY_ACTIVE_LOW then \<not> high else high)"

text \<open>The locals of one window: the write index and the three running sums.\<close>

record window_locals =
  ix :: nat
  sumV :: f32
  sumI :: f32
  sumP :: f32

text \<open>The packing block of the sample loop: the guarded writes into \<^verbatim>\<open>features\<close>.\<close>

definition pack_sample ::
  "config \<Rightarrow> nat \<Rightarrow> f32 \<Rightarrow> f32 \<Rightarrow> f32 \<Rightarrow> f32 \<Rightarrow> f32 list \<Rightarrow> f32 list \<times> nat" where
  "pack_sample cfg i0 v i p r f =
     (if i0 + kModelAxes cfg \<le> kTotalLen cfg then
        (let base = i0;
             f1 = (if kModelAxes cfg \<ge> 1 then f[base + 0 := v] else f);
             f2 = (if kModelAxes cfg \<ge> 2 then f1[base + 1 := i] else f1);
             f3 = (if kModelAxes cfg \<ge> 3 then f2[base + 2 := p] else f2);
             f4 = (if kModelAxes cfg \<ge> 4 then f3[base + 3 := r] else f3);
             f5 = foldl (\<lambda>g k. g[base + k := zero32]) f4 [4..<kModelAxes cfg]
         in (f5, i0 + kModelAxes cfg))
      else (f, i0))"

text \<open>The literal \<^verbatim>\<open>0.001f\<close> that turns milliampere into ampere.\<close>

definition milli32 :: f32 where
  "milli32 = f32_lit 0.001"

text \<open>One iteration of the sample loop, for sample number \<open>n\<close>.\<close>

definition sample_step ::
  "config \<Rightarrow> bool \<Rightarrow> (nat \<Rightarrow> reading) \<Rightarrow> ml_state \<times> window_locals \<Rightarrow> nat
     \<Rightarrow> ml_state \<times> window_locals" where
  "sample_step cfg first_window rd sl n =
     (let st = fst sl; loc = snd sl;
          v = busVoltage_V (rd n);
          i = f32_mul (current_mA (rd n)) milli32;
          p = f32_mul v i;
          r = (if relayIsOn (relay_pin_high (rd n)) then one32 else zero32);
          (f, i1) = pack_sample cfg (ix loc) v i p r (features st);
          st1 = st\<lparr>features := f\<rparr>;
          loc1 = loc\<lparr>ix := i1, sumV := f32_add (sumV loc) v, sumI := f32_add (sumI loc) i,
                   sumP := f32_add (sumP loc) p\<rparr>;
          st2 = (if first_window then
                   set_metrics ((get_metrics st1)\<lparr>phase := UI_LOADING,
                       progress := f32_div (f32_of_nat (n + 1)) (f32_of_nat (kRawCount cfg))\<rparr>) st1
                 else st1)
      in (st2, loc1))"

definition sample_loop ::
  "config \<Rightarrow> bool \<Rightarrow> (nat \<Rightarrow> reading) \<Rightarrow> ml_state \<Rightarrow> ml_state \<times> window_locals" where
  "sample_loop cfg first_window rd st =
     foldl (sample_step cfg first_window rd)
       (st, \<lparr>ix = 0, sumV = zero32, sumI = zero32, sumP = zero32\<rparr>) [0..<kRawCount cfg]"

text \<open>\<^verbatim>\<open>label_has(L, s)\<close> is \<^verbatim>\<open>strstr(L, s) != nullptr\<close>: \<open>s\<close> occurs in \<open>L\<close>.\<close>

definition label_has :: "string \<Rightarrow> string \<Rightarrow> bool" where
  "label_has L s = sublist s L"

text \<open>The five accumulators, in the order the source declares them.\<close>

record label_acc =
  p_theft :: f32
  p_normal :: f32
  p_tamper :: f32
  p_on :: f32
  p_off :: f32

definition label_step :: "label_acc \<Rightarrow> string \<times> f32 \<Rightarrow> label_acc" where
  "label_step a e =
     (let L = fst e; v = snd e;
          a1 = (if label_has L ''theft'' then a\<lparr>p_theft := f32_add (p_theft a) v\<rparr> else a);
          a2 = (if label_has L ''tamper'' then a1\<lparr>p_tamper := f32_add (p_tamper a1) v\<rparr> else a1);
          a3 = (if label_has L ''normal'' then a2\<lparr>p_normal := f32_add (p_normal a2) v\<rparr> else a2);
          a4 = (if label_has L ''on'' then a3\<lparr>p_on := f32_add (p_on a3) v\<rparr> else a3);
          a5 = (if label_has L ''off'' then a4\<lparr>p_off := f32_add (p_off a4) v\<rparr> else a4)
      in a5)"

text \<open>
  The classifier result is the array \<^verbatim>\<open>res.classification\<close>, one (label, value) pair for
  each of the \<^verbatim>\<open>EI_CLASSIFIER_LABEL_COUNT\<close> labels.
\<close>

definition theft_metric_from_labels :: "(string \<times> f32) list \<Rightarrow> bool \<Rightarrow> f32" where
  "theft_metric_from_labels res relay_on =
     (let a = foldl label_step
                \<lparr>p_theft = zero32, p_normal = zero32, p_tamper = zero32, p_on = zero32,
                 p_off = zero32\<rparr> res
      in if f32_gt (f32_add (p_theft a) (p_tamper a)) zero32 then f32_add (p_theft a) (p_tamper a)
         else if f32_gt (p_normal a) zero32 then f32_sub one32 (p_normal a)
         else if f32_gt (p_on a) zero32 \<or> f32_gt (p_off a) zero32
           then (if relay_on then p_on a else p_off a)
         else f32_sub one32 (p_normal a))"

text \<open>The block "EWMA + majority vote"; the result is \<^verbatim>\<open>alert\<close> and the updated globals.\<close>

definition decision_update :: "f32 \<Rightarrow> ml_state \<Rightarrow> bool \<times> ml_state" where
  "decision_update theft_prob st =
     (let ewma = f32_add (f32_mul EWMA_ALPHA theft_prob)
                   (f32_mul (f32_sub one32 EWMA_ALPHA) (theft_prob_ewma st));
          hist = (vote_hist st)[vote_hist_idx st := (if f32_ge theft_prob (f32_lit 0.5) then 1 else 0)];
          idx = (vote_hist_idx st + 1) mod VOTE_N;
          vote_sum = foldl (\<lambda>a k. a + hist ! k) 0 [0..<VOTE_N];
          vote_theft = (vote_sum \<ge> int ((VOTE_N + 1) div 2));
          alert = (f32_ge ewma THEFT_THRESHOLD \<or> vote_theft)
      in (alert, st\<lparr>theft_prob_ewma := ewma, vote_hist := hist, vote_hist_idx := idx\<rparr>))"

subsection \<open>Formatted output\<close>

text \<open>
  The conversions of \<^verbatim>\<open>printf\<close> the sketch uses. \<^verbatim>\<open>%d\<close> prints a decimal integer.
  A \<^verbatim>\<open>float\<close> argument is passed as the \<^verbatim>\<open>double\<close> of the same value, and \<^verbatim>\<open>%.Nf\<close> prints
  that value rounded to \<open>N\<close> decimals (an exact tie goes to the even neighbour), with a
  minus sign when the sign bit is set and at least one digit before the point; an
  infinity prints as \<open>inf\<close> and NaN as \<open>nan\<close>. \<open>dec_digits\<close> is the decimal numeral of a
  non-negative integer.
\<close>

function dec_digits :: "int \<Rightarrow> string" where
  "dec_digits n =
     (if n < 10 then [''0123456789'' ! nat n]
      else dec_digits (n div 10) @ [''0123456789'' ! nat (n mod 10)])"
  by pat_completeness auto
termination
  by (relation "measure nat") auto

declare dec_digits.simps [simp del]

definition printf_d :: "int \<Rightarrow> string" where
  "printf_d k = (if k < 0 then ''-'' @ dec_digits (- k) else dec_digits k)"

fun printf_f :: "nat \<Rightarrow> f32 \<Rightarrow> string" where
  "printf_f prec (Finite s m) =
     (let scaled = round_half_even (m * 10 ^ prec);
          ip = dec_digits (scaled div 10 ^ prec);
          fp = dec_digits (scaled mod 10 ^ prec);
          frac = replicate (prec - length fp) (CHR ''0'') @ fp
      in (if s then ''-'' else []) @ ip @ (if prec = 0 then [] else ''.'' @ frac))"
| "printf_f prec (Infinity s) = (if s then ''-inf'' else ''inf'')"
| "printf_f prec NaN = ''nan''"

definition data_line :: "f32 \<Rightarrow> f32 \<Rightarrow> f32 \<Rightarrow> f32 \<Rightarrow> bool \<Rightarrow> string" where
  "data_line v i p th al =
     ''DATA:V='' @ printf_f 3 v @ '',I='' @ printf_f 3 i @ '',P='' @ printf_f 3 p
       @ '',THEFT='' @ printf_f 2 th @ '',ALERT='' @ printf_d (if al then 1 else 0) @ [LF]"

definition err_line :: "int \<Rightarrow> string" where
  "err_line err = ''ERR:Classifier('' @ printf_d err @ '')'' @ [LF]"

subsection \<open>One window and the task loop\<close>

text \<open>
  What one pass of the outer loop takes from outside: the readings of its samples, the
  classifier (a function of the feature buffer, returning the status and the
  classification array) and the level of the relay pin read after the classifier returns.
\<close>

record window_env =
  readings :: "nat \<Rightarrow> reading"
  run_classifier :: "f32 list \<Rightarrow> int \<times> (string \<times> f32) list"
  relay_after :: bool

text \<open>
  One pass of the loop body of \<^verbatim>\<open>taskML\<close>. The local \<^verbatim>\<open>first_window\<close> is carried with
  the state; the \<^verbatim>\<open>continue\<close> on a classifier error returns it as it was. The divisor
  \<^verbatim>\<open>kRawCount\<close> of the means is converted from \<^verbatim>\<open>size_t\<close>.
\<close>

definition ml_window :: "config \<Rightarrow> window_env \<Rightarrow> bool \<times> ml_state \<Rightarrow> bool \<times> ml_state" where
  "ml_window cfg env fs =
     (let first_window = fst fs;
          (st1, loc) = sample_loop cfg first_window (readings env) (snd fs);
          (err, result) = run_classifier env (features st1)
      in if err \<noteq> EI_IMPULSE_OK then
           (first_window, st1\<lparr>ml_out := ml_out st1 @ [SerialPrintf (err_line err)]\<rparr>)
         else
           (let relay_on = relayIsOn (relay_after env);
                theft_prob = theft_metric_from_labels result relay_on;
                (al, st2) = decision_update theft_prob st1;
                st3 = st2\<lparr>status_led := al, ml_out := ml_out st2 @ [DigitalWrite STATUS_LED al]\<rparr>;
                V_mean = f32_div (sumV loc) (f32_of_nat (kRawCount cfg));
                I_mean = f32_div (sumI loc) (f32_of_nat (kRawCount cfg));
                P_mean = f32_div (sumP loc) (f32_of_nat (kRawCount cfg));
                st4 = st3\<lparr>ml_out := ml_out st3
                        @ [SerialPrintf (data_line V_mean I_mean P_mean (theft_prob_ewma st3) al)]\<rparr>;
                m = (get_metrics st4)\<lparr>V := V_mean, I := I_mean, P := P_mean,
                      theft := theft_prob_ewma st4, alert := al, relay := relay_on,
                      progress := one32, phase := (if al then UI_ALERT else UI_RUN)\<rparr>
            in (False, set_metrics m st4)))"

text \<open>The first passes of the endless loop, one per element of \<open>envs\<close>.\<close>

definition taskML :: "config \<Rightarrow> window_env list \<Rightarrow> ml_state \<Rightarrow> bool \<times> ml_state" where
  "taskML cfg envs st = foldl (\<lambda>fs env. ml_window cfg env fs) (True, st) envs"

text \<open>The globals when \<^verbatim>\<open>taskML\<close> starts, after \<^verbatim>\<open>setup\<close> created the mutex.\<close>

definition ml_init :: "config \<Rightarrow> ml_state" where
  "ml_init cfg = \<lparr>g_last = boot_metrics, g_last_mtx = True, g_last_writes = [],
     theft_prob_ewma = zero32, vote_hist = replicate VOTE_N 0, vote_hist_idx = 0,
     features = replicate (kTotalLen cfg) zero32, status_led = False, ml_out = []\<rparr>"

section \<open>Display worker\<close>

definition SCREEN_WIDTH :: int where
  "SCREEN_WIDTH = 128"

text \<open>The renderer a tick calls, with its arguments.\<close>

datatype draw_call =
    DrawBootFrame nat
  | DrawLoading Metrics nat
  | DrawAlert Metrics nat
  | DrawRun Metrics

text \<open>
  One pass of the loop of \<^verbatim>\<open>taskDisplay\<close>: \<open>now\<close> is \<^verbatim>\<open>millis()\<close>, \<open>boot_frames\<close> the
  local counter. The result is the renderer called, the counter and the store afterwards.
\<close>

definition display_tick ::
  "nat \<Rightarrow> nat \<Rightarrow> 'a store_scheme \<Rightarrow> draw_call \<times> nat \<times> 'a store_scheme" where
  "display_tick now boot_frames s =
     (let m = get_metrics s
      in if phase m = UI_BOOT \<and> boot_frames < 20 then (DrawBootFrame boot_frames, boot_frames + 1, s)
         else if phase m = UI_LOADING then (DrawLoading m now, boot_frames, s)
         else if phase m = UI_ALERT then (DrawAlert m now, boot_frames, s)
         else (DrawRun m, boot_frames, s))"

text \<open>
  The width \<^verbatim>\<open>w\<close> that \<^verbatim>\<open>drawLoading\<close> computes for the filled part of the progress bar,
  \<^verbatim>\<open>fillRect(2, 20, w, 8)\<close>, inside the outline \<^verbatim>\<open>drawRect(0, 18, SCREEN_WIDTH, 12)\<close>:
  the outline covers the columns 0 to 127 and the fill starts at column 2, so the factor
  \<^verbatim>\<open>SCREEN_WIDTH - 4\<close> is the width of the columns 2 to 125, one column inside the
  outline on either side. The integers 0, 1 and \<^verbatim>\<open>SCREEN_WIDTH - 4\<close> are converted to
  \<^verbatim>\<open>float\<close>, the product is a \<^verbatim>\<open>float\<close> product and the cast truncates it.
\<close>

definition loading_fill_w :: "Metrics \<Rightarrow> int option" where
  "loading_fill_w m =
     f32_to_int (f32_mul (f32_of_int (SCREEN_WIDTH - 4))
        (if f32_lt (progress m) (f32_of_int 0) then f32_of_int 0
         else if f32_gt (progress m) (f32_of_int 1) then f32_of_int 1
         else progress m))"

section \<open>Notions used to state the properties\<close>

text \<open>
  The sum the loop of \<open>theft_metric_from_labels\<close> accumulates for the word \<open>w\<close>: the values
  of the labels that contain \<open>w\<close>, added in the order of the classification, starting from 0.
\<close>

definition label_sum :: "string \<Rightarrow> (string \<times> f32) list \<Rightarrow> f32" where
  "label_sum w res = foldl f32_add zero32 (map snd (filter (\<lambda>e. label_has (fst e) w) res))"

text \<open>
  The label rules as the specification words them, for comparison with
  \<open>theft_metric_from_labels\<close>: rule (a) sums the labels that contain \<open>theft\<close> or \<open>tamper\<close>,
  rules (b) and (c) ask whether such labels are present.
\<close>

definition theft_metric_as_specified :: "(string \<times> f32) list \<Rightarrow> bool \<Rightarrow> f32" where
  "theft_metric_as_specified res relay_on =
     (let tt = foldl f32_add zero32 (map snd
                 (filter (\<lambda>e. label_has (fst e) ''theft'' \<or> label_has (fst e) ''tamper'') res))
      in if f32_gt tt zero32 then tt
         else if list_ex (\<lambda>e. label_has (fst e) ''normal'') res
           then f32_sub one32 (label_sum ''normal'' res)
         else if list_ex (\<lambda>e. label_has (fst e) ''on'' \<or> label_has (fst e) ''off'') res
           then (if relay_on then label_sum ''on'' res else label_sum ''off'' res)
         else f32_sub one32 (label_sum ''normal'' res))"

text \<open>
  The window probability of a classified window: the label rules applied to the
  classification of the window's feature buffer and the relay level read afterwards.
\<close>

definition window_prob :: "config \<Rightarrow> window_env \<Rightarrow> bool \<Rightarrow> ml_state \<Rightarrow> f32" where
  "window_prob cfg env fw st =
     theft_metric_from_labels
       (snd (run_classifier env (features (fst (sample_loop cfg fw (readings env) st)))))
       (relayIsOn (relay_after env))"

text \<open>The decision bit a window probability puts into the vote history.\<close>

definition vote_bit :: "f32 \<Rightarrow> int" where
  "vote_bit p = (if f32_ge p (Finite False (1 / 2)) then 1 else 0)"

text \<open>The globals after the decision updates for the window probabilities \<open>ps\<close>, in order.\<close>

definition decisions :: "f32 list \<Rightarrow> ml_state \<Rightarrow> ml_state" where
  "decisions ps st = foldl (\<lambda>s p. snd (decision_update p s)) st ps"

text \<open>
  The value the packing block stores on axis \<open>k\<close> for sample \<open>n\<close> of a window with
  readings \<open>rd\<close>: voltage, current in ampere (the reading in milliampere times
  \<^verbatim>\<open>0.001f\<close>), their product, the relay state as 1 or 0, and 0 on every further axis.
\<close>

definition packed_axis :: "(nat \<Rightarrow> reading) \<Rightarrow> nat \<Rightarrow> nat \<Rightarrow> f32" where
  "packed_axis rd n k =
     (if k = 0 then busVoltage_V (rd n)
      else if k = 1 then f32_mul (current_mA (rd n)) milli32
      else if k = 2 then f32_mul (busVoltage_V (rd n)) (f32_mul (current_mA (rd n)) milli32)
      else if k = 3 then (if relayIsOn (relay_pin_high (rd n)) then one32 else zero32)
      else zero32)"

text \<open>
  The mean the window computes of a quantity \<open>q\<close> of the sample: the running sum over the
  \<open>kRawCount\<close> samples in order, starting from 0, divided by the converted count.
\<close>

definition window_mean :: "config \<Rightarrow> (nat \<Rightarrow> f32) \<Rightarrow> f32" where
  "window_mean cfg q =
     f32_div (foldl f32_add zero32 (map q [0..<kRawCount cfg])) (f32_of_nat (kRawCount cfg))"

text \<open>
  Two small instances for concrete runs. The first has two samples of five axes per window
  and a steady load of 11.5 V and 750 mA with the relay on; its classifier either fails with
  status \<open>-3\<close>, or reports the single label \<open>normal\<close> with value 1, or the single label
  \<open>theft\<close> with value 1. The second has one sample of four axes, 12 V and 2.5 mA.
\<close>

definition demo_cfg :: config where
  "demo_cfg = \<lparr>kTotalLen = 10, kRawCount = 2\<rparr>"

definition demo_readings :: "nat \<Rightarrow> reading" where
  "demo_readings n = \<lparr>busVoltage_V = Finite False (23 / 2), current_mA = Finite False 750,
                        relay_pin_high = True\<rparr>"

definition demo_env_error :: window_env where
  "demo_env_error = \<lparr>readings = demo_readings, run_classifier = (\<lambda>f. (- 3, [])),
                      relay_after = True\<rparr>"

definition demo_env_normal :: window_env where
  "demo_env_normal = \<lparr>readings = demo_readings,
                       run_classifier = (\<lambda>f. (0, [(''normal'', one32)])), relay_after = True\<rparr>"

definition demo_env_theft :: window_env where
  "demo_env_theft = \<lparr>readings = demo_readings,
                      run_classifier = (\<lambda>f. (0, [(''theft'', one32)])), relay_after = True\<rparr>"



section \<open>Properties of the command parser\<close>

lemma takeWhile_stop: "\<not> Q y \<Longrightarrow> takeWhile Q (xs @ y # ys) = takeWhile Q xs"
  by (induction xs) auto

lemma c_str_terminated:
  assumes "n < length a"
  shows "c_str (a[n := NUL]) = c_str (take n a)"
proof -
  have "a[n := NUL] = take n a @ NUL # drop (Suc n) a"
    using assms by (rule upd_conv_take_nth_drop)
  then show ?thesis
    by (simp add: c_str_def takeWhile_stop)
qed

lemma c_str_no_NUL: "NUL \<notin> set a \<Longrightarrow> c_str a = a"
  by (induction a) (auto simp: c_str_def)

lemma take_take_append: "take n (take n xs @ ys) = take n (xs @ ys)"
proof (induction xs arbitrary: n)
  case Nil
  then show ?case by simp
next
  case (Cons x xs)
  then show ?case by (cases n) auto
qed

lemma c_str_literals:
  "c_str ''RELAY:ON'' = ''RELAY:ON''" "c_str ''RELAY:OFF'' = ''RELAY:OFF''"
  by (simp_all add: c_str_def NUL_def)

lemma parse_CR: "parseCommandByte CR s = s"
  by (simp add: parseCommandByte_def)

lemma parse_data:
  assumes "cmd_wf s" "c \<noteq> CR" "c \<noteq> LF"
  shows "relay_level (parseCommandByte c s) = relay_level s"
    and "cmd_out (parseCommandByte c s) = cmd_out s"
    and "len s < 31 \<Longrightarrow> line (parseCommandByte c s) = line s @ [c]"
    and "\<not> len s < 31 \<Longrightarrow> parseCommandByte c s = s"
    and "cmd_wf (parseCommandByte c s)"
  using assms
  by (auto simp: parseCommandByte_def line_def cmd_wf_def sizeof_buf_def take_Suc_conv_app_nth)

lemma parse_data_line:
  assumes "cmd_wf s" "c \<noteq> CR" "c \<noteq> LF"
  shows "line (parseCommandByte c s) = take 31 (line s @ [c])"
proof (cases "len s < 31")
  case True
  then have "length (line s) < 31" by (simp add: line_def)
  with True parse_data(3)[OF assms] show ?thesis by simp
next
  case False
  with assms(1) have "len s = 31" "length (line s) = 31"
    by (auto simp: cmd_wf_def sizeof_buf_def line_def)
  with False parse_data(4)[OF assms] show ?thesis by simp
qed

lemma parse_LF:
  assumes "cmd_wf s"
  shows "parseCommandByte LF s =
     (if c_str (line s) = ''RELAY:ON'' then
        s\<lparr>buf := (buf s)[len s := NUL], len := 0, relay_level := True,
          cmd_out := cmd_out s @ [DigitalWrite RELAY_PIN True, SerialPrintln ''OK:RELAY:ON'']\<rparr>
      else if c_str (line s) = ''RELAY:OFF'' then
        s\<lparr>buf := (buf s)[len s := NUL], len := 0, relay_level := False,
          cmd_out := cmd_out s @ [DigitalWrite RELAY_PIN False, SerialPrintln ''OK:RELAY:OFF'']\<rparr>
      else if len s \<noteq> 0 then
        s\<lparr>buf := (buf s)[len s := NUL], len := 0,
          cmd_out := cmd_out s @ [SerialPrintln ''ERR:UNKNOWN_CMD'']\<rparr>
      else s\<lparr>buf := (buf s)[len s := NUL], len := 0\<rparr>)"
proof -
  from assms have "len s < length (buf s)"
    by (simp add: cmd_wf_def sizeof_buf_def)
  then have "c_str ((buf s)[len s := NUL]) = c_str (line s)"
    by (simp add: c_str_terminated line_def)
  then show ?thesis
    by (simp add: parseCommandByte_def strcmp_eq_def c_str_literals relayWrite_def
        Serial_println_def RELAY_ACTIVE_LOW_def CR_def LF_def Let_def)
qed

lemma parse_wf: "cmd_wf s \<Longrightarrow> cmd_wf (parseCommandByte c s)"
  by (auto simp: parseCommandByte_def cmd_wf_def sizeof_buf_def relayWrite_def
      Serial_println_def Let_def)

lemma handle_wf: "cmd_wf s \<Longrightarrow> cmd_wf (handleSerialInput bs s)"
  by (induction bs arbitrary: s) (auto simp: parse_wf)

lemma cmd_wf_init: "cmd_wf cmd_init"
  by (simp add: cmd_wf_def cmd_init_def sizeof_buf_def)

lemma handle_append:
  "handleSerialInput (as @ bs) s = handleSerialInput bs (handleSerialInput as s)"
  by (induction as arbitrary: s) auto

lemma handle_no_LF:
  assumes "cmd_wf s" "LF \<notin> set bs"
  shows "relay_level (handleSerialInput bs s) = relay_level s
       \<and> cmd_out (handleSerialInput bs s) = cmd_out s
       \<and> line (handleSerialInput bs s) = take 31 (line s @ filter (\<lambda>c. c \<noteq> CR) bs)"
  using assms
proof (induction bs arbitrary: s)
  case Nil
  then show ?case by (simp add: line_def cmd_wf_def sizeof_buf_def)
next
  case (Cons b bs)
  show ?case
  proof (cases "b = CR")
    case True
    with Cons show ?thesis by (simp add: parse_CR)
  next
    case False
    from Cons.prems have nlf: "b \<noteq> LF" "LF \<notin> set bs" by auto
    note pd = parse_data[OF Cons.prems(1) False nlf(1)]
    have ih: "relay_level (handleSerialInput bs (parseCommandByte b s)) = relay_level s
       \<and> cmd_out (handleSerialInput bs (parseCommandByte b s)) = cmd_out s
       \<and> line (handleSerialInput bs (parseCommandByte b s))
           = take 31 (line (parseCommandByte b s) @ filter (\<lambda>c. c \<noteq> CR) bs)"
      using Cons.IH[OF pd(5) nlf(2)] pd(1,2) by simp
    have "take 31 (line (parseCommandByte b s) @ filter (\<lambda>c. c \<noteq> CR) bs)
        = take 31 (line s @ b # filter (\<lambda>c. c \<noteq> CR) bs)"
      using take_take_append[of 31 "line s @ [b]" "filter (\<lambda>c. c \<noteq> CR) bs"]
      by (simp add: parse_data_line[OF Cons.prems(1) False nlf(1)])
    with ih False show ?thesis by simp
  qed
qed


lemma line_length: "cmd_wf s \<Longrightarrow> length (line s) = len s"
  by (simp add: line_def cmd_wf_def sizeof_buf_def)

lemma parse_LF_effect:
  assumes "cmd_wf s"
  shows "line (parseCommandByte LF s) = []"
    and "c_str (line s) = ''RELAY:ON'' \<Longrightarrow>
           relay_level (parseCommandByte LF s)
         \<and> cmd_out (parseCommandByte LF s)
             = cmd_out s @ [DigitalWrite RELAY_PIN True, SerialPrintln ''OK:RELAY:ON'']"
    and "c_str (line s) = ''RELAY:OFF'' \<Longrightarrow>
           \<not> relay_level (parseCommandByte LF s)
         \<and> cmd_out (parseCommandByte LF s)
             = cmd_out s @ [DigitalWrite RELAY_PIN False, SerialPrintln ''OK:RELAY:OFF'']"
    and "c_str (line s) \<noteq> ''RELAY:ON'' \<Longrightarrow> c_str (line s) \<noteq> ''RELAY:OFF'' \<Longrightarrow> line s \<noteq> [] \<Longrightarrow>
           relay_level (parseCommandByte LF s) = relay_level s
         \<and> cmd_out (parseCommandByte LF s) = cmd_out s @ [SerialPrintln ''ERR:UNKNOWN_CMD'']"
    and "line s = [] \<Longrightarrow>
           relay_level (parseCommandByte LF s) = relay_level s
         \<and> cmd_out (parseCommandByte LF s) = cmd_out s"
proof -
  have l0: "(line s = []) = (len s = 0)"
    using line_length[OF assms] by (metis length_0_conv)
  show "line (parseCommandByte LF s) = []"
    by (simp add: parse_LF[OF assms] line_def)
  show "c_str (line s) = ''RELAY:ON'' \<Longrightarrow>
           relay_level (parseCommandByte LF s)
         \<and> cmd_out (parseCommandByte LF s)
             = cmd_out s @ [DigitalWrite RELAY_PIN True, SerialPrintln ''OK:RELAY:ON'']"
    by (simp add: parse_LF[OF assms])
  show "c_str (line s) = ''RELAY:OFF'' \<Longrightarrow>
           \<not> relay_level (parseCommandByte LF s)
         \<and> cmd_out (parseCommandByte LF s)
             = cmd_out s @ [DigitalWrite RELAY_PIN False, SerialPrintln ''OK:RELAY:OFF'']"
    by (simp add: parse_LF[OF assms])
  show "c_str (line s) \<noteq> ''RELAY:ON'' \<Longrightarrow> c_str (line s) \<noteq> ''RELAY:OFF'' \<Longrightarrow> line s \<noteq> [] \<Longrightarrow>
           relay_level (parseCommandByte LF s) = relay_level s
         \<and> cmd_out (parseCommandByte LF s) = cmd_out s @ [SerialPrintln ''ERR:UNKNOWN_CMD'']"
    by (simp add: parse_LF[OF assms] l0)
  show "line s = [] \<Longrightarrow>
           relay_level (parseCommandByte LF s) = relay_level s
         \<and> cmd_out (parseCommandByte LF s) = cmd_out s"
  proof -
    assume e: "line s = []"
    then have "c_str (line s) = []" by (simp add: c_str_def)
    with e show ?thesis
      by (simp add: parse_LF[OF assms] l0[symmetric])
  qed
qed

text \<open>
  Claim C6, as the code has it. In a state that satisfies the invariant of the two statics:
  a carriage return changes nothing; any other byte that is not a newline is appended while
  fewer than 31 bytes are buffered and dropped afterwards, the buffer staying as it is, and
  neither the relay nor the output changes; no sequence of bytes without a newline executes
  a command or emits a reply; a newline empties the buffer. At the newline the command is the
  buffered line read as a C string, that is, up to its first NUL byte (the whole line when it
  has none): \<open>RELAY:ON\<close> first drives the relay pin on and then prints \<open>OK:RELAY:ON\<close>,
  \<open>RELAY:OFF\<close> first drives it off and then prints \<open>OK:RELAY:OFF\<close>, any other non-empty
  line prints \<open>ERR:UNKNOWN_CMD\<close> and leaves the relay alone, and an empty line prints
  nothing.
\<close>

theorem parseCommandByte_protocol:
  assumes "cmd_wf s"
  shows "parseCommandByte CR s = s
    \<and> (\<forall>c. c \<noteq> CR \<and> c \<noteq> LF \<longrightarrow>
          relay_level (parseCommandByte c s) = relay_level s
        \<and> cmd_out (parseCommandByte c s) = cmd_out s
        \<and> line (parseCommandByte c s)
            = (if length (line s) < 31 then line s @ [c] else line s))
    \<and> (\<forall>bs. LF \<notin> set bs \<longrightarrow>
          relay_level (handleSerialInput bs s) = relay_level s
        \<and> cmd_out (handleSerialInput bs s) = cmd_out s)
    \<and> line (parseCommandByte LF s) = []
    \<and> (c_str (line s) = ''RELAY:ON'' \<longrightarrow>
          relay_level (parseCommandByte LF s)
        \<and> cmd_out (parseCommandByte LF s)
            = cmd_out s @ [DigitalWrite RELAY_PIN True, SerialPrintln ''OK:RELAY:ON''])
    \<and> (c_str (line s) = ''RELAY:OFF'' \<longrightarrow>
          \<not> relay_level (parseCommandByte LF s)
        \<and> cmd_out (parseCommandByte LF s)
            = cmd_out s @ [DigitalWrite RELAY_PIN False, SerialPrintln ''OK:RELAY:OFF''])
    \<and> (c_str (line s) \<noteq> ''RELAY:ON'' \<and> c_str (line s) \<noteq> ''RELAY:OFF'' \<and> line s \<noteq> [] \<longrightarrow>
          relay_level (parseCommandByte LF s) = relay_level s
        \<and> cmd_out (parseCommandByte LF s) = cmd_out s @ [SerialPrintln ''ERR:UNKNOWN_CMD''])
    \<and> (line s = [] \<longrightarrow>
          relay_level (parseCommandByte LF s) = relay_level s
        \<and> cmd_out (parseCommandByte LF s) = cmd_out s)
    \<and> (NUL \<notin> set (line s) \<longrightarrow> c_str (line s) = line s)"
proof -
  have data: "\<forall>c. c \<noteq> CR \<and> c \<noteq> LF \<longrightarrow>
          relay_level (parseCommandByte c s) = relay_level s
        \<and> cmd_out (parseCommandByte c s) = cmd_out s
        \<and> line (parseCommandByte c s)
            = (if length (line s) < 31 then line s @ [c] else line s)"
    using parse_data[OF assms] line_length[OF assms] by auto
  have quiet: "\<forall>bs. LF \<notin> set bs \<longrightarrow>
          relay_level (handleSerialInput bs s) = relay_level s
        \<and> cmd_out (handleSerialInput bs s) = cmd_out s"
    using handle_no_LF[OF assms] by blast
  show ?thesis
    using parse_CR data quiet parse_LF_effect[OF assms] c_str_no_NUL by blast
qed

theorem parseCommandByte_protocol_witness:
  "cmd_wf (handleSerialInput ''RELAY:ON'' cmd_init)
   \<and> c_str (line (handleSerialInput ''RELAY:ON'' cmd_init)) = ''RELAY:ON''
   \<and> relay_level (parseCommandByte LF (handleSerialInput ''RELAY:ON'' cmd_init))
   \<and> cmd_out (parseCommandByte LF (handleSerialInput ''RELAY:ON'' cmd_init))
       = [DigitalWrite RELAY_PIN True, SerialPrintln ''OK:RELAY:ON'']"
proof -
  have wf: "cmd_wf (handleSerialInput ''RELAY:ON'' cmd_init)"
    by code_simp
  have cmd: "c_str (line (handleSerialInput ''RELAY:ON'' cmd_init)) = ''RELAY:ON''"
    by code_simp
  have out0: "cmd_out (handleSerialInput ''RELAY:ON'' cmd_init) = []"
    by code_simp
  from parseCommandByte_protocol[OF wf] cmd out0 wf show ?thesis
    by simp
qed

text \<open>
  Claim C6 as it is worded compares the whole buffered line with the command. The bytes
  \<open>RELAY:ON\<close>, NUL, \<open>x\<close> form a non-empty line different from \<open>RELAY:ON\<close>, and the
  newline after them switches the relay on and is answered by \<open>OK:RELAY:ON\<close>.
\<close>

theorem parse_nul_line_counterexample:
  "line (handleSerialInput (''RELAY:ON'' @ [NUL, CHR ''x'']) cmd_init) \<noteq> ''RELAY:ON''
   \<and> line (handleSerialInput (''RELAY:ON'' @ [NUL, CHR ''x'']) cmd_init) \<noteq> []
   \<and> \<not> relay_level (handleSerialInput (''RELAY:ON'' @ [NUL, CHR ''x'']) cmd_init)
   \<and> relay_level (handleSerialInput (''RELAY:ON'' @ [NUL, CHR ''x'', LF]) cmd_init)
   \<and> cmd_out (handleSerialInput (''RELAY:ON'' @ [NUL, CHR ''x'', LF]) cmd_init)
       = [DigitalWrite RELAY_PIN True, SerialPrintln ''OK:RELAY:ON'']"
  by code_simp

text \<open>
  Claim C10. A line that starts on an empty buffer, has no NUL byte and has more than 31
  bytes other than carriage returns before its newline is answered by \<open>ERR:UNKNOWN_CMD\<close>,
  and the relay keeps its level: the 31 bytes retained are longer than either command.
\<close>

theorem overlong_line_rejected:
  assumes "cmd_wf s" and "len s = 0" and "LF \<notin> set bs" and "NUL \<notin> set bs"
    and "length (filter (\<lambda>c. c \<noteq> CR) bs) > 31"
  shows "relay_level (handleSerialInput (bs @ [LF]) s) = relay_level s
       \<and> cmd_out (handleSerialInput (bs @ [LF]) s) = cmd_out s @ [SerialPrintln ''ERR:UNKNOWN_CMD'']
       \<and> line (handleSerialInput (bs @ [LF]) s) = []"
proof -
  define s1 where "s1 = handleSerialInput bs s"
  have wf1: "cmd_wf s1"
    unfolding s1_def using assms(1) by (rule handle_wf)
  have l0: "line s = []"
    using assms(2) by (simp add: line_def)
  have s1: "relay_level s1 = relay_level s" "cmd_out s1 = cmd_out s"
    "line s1 = take 31 (filter (\<lambda>c. c \<noteq> CR) bs)"
    unfolding s1_def using handle_no_LF[OF assms(1,3)] l0 by simp_all
  have len1: "length (line s1) = 31"
    using s1(3) assms(5) by simp
  have "set (line s1) \<subseteq> set bs"
    unfolding s1(3) by (meson filter_is_subset set_take_subset subset_trans)
  with assms(4) have "NUL \<notin> set (line s1)" by blast
  then have cs: "c_str (line s1) = line s1" by (rule c_str_no_NUL)
  have ne: "c_str (line s1) \<noteq> ''RELAY:ON''" "c_str (line s1) \<noteq> ''RELAY:OFF''" "line s1 \<noteq> []"
    using len1 cs by auto
  have "handleSerialInput (bs @ [LF]) s = parseCommandByte LF s1"
    by (simp add: handle_append s1_def)
  then show ?thesis
    using parse_LF_effect(1)[OF wf1] parse_LF_effect(4)[OF wf1 ne] s1(1,2) by simp
qed

theorem overlong_line_rejected_witness:
  "cmd_wf cmd_init \<and> len cmd_init = 0
   \<and> LF \<notin> set (''RELAY:ON'' @ replicate 24 (CHR ''!''))
   \<and> NUL \<notin> set (''RELAY:ON'' @ replicate 24 (CHR ''!''))
   \<and> length (filter (\<lambda>c. c \<noteq> CR) (''RELAY:ON'' @ replicate 24 (CHR ''!''))) > 31
   \<and> \<not> relay_level (handleSerialInput ((''RELAY:ON'' @ replicate 24 (CHR ''!'')) @ [LF]) cmd_init)
   \<and> cmd_out (handleSerialInput ((''RELAY:ON'' @ replicate 24 (CHR ''!'')) @ [LF]) cmd_init)
       = [SerialPrintln ''ERR:UNKNOWN_CMD'']"
proof -
  have h1: "cmd_wf cmd_init" by code_simp
  have h2: "len cmd_init = 0" by code_simp
  have h3: "LF \<notin> set (''RELAY:ON'' @ replicate 24 (CHR ''!''))" by code_simp
  have h4: "NUL \<notin> set (''RELAY:ON'' @ replicate 24 (CHR ''!''))" by code_simp
  have h5: "length (filter (\<lambda>c. c \<noteq> CR) (''RELAY:ON'' @ replicate 24 (CHR ''!''))) > 31"
    by code_simp
  have i: "\<not> relay_level cmd_init" "cmd_out cmd_init = []" by code_simp+
  from overlong_line_rejected[OF h1 h2 h3 h4 h5] i h1 h2 h3 h4 h5 show ?thesis
    by simp
qed

section \<open>Values of the float constants\<close>

text \<open>
  The constants of the sketch in the format: \<^verbatim>\<open>0.5f\<close> is exact, \<^verbatim>\<open>0.6f\<close> is
  \<open>5033165 / 8388608\<close>, just above 0.6, and \<^verbatim>\<open>0.001f\<close> is \<open>8589935 / 8589934592\<close>.
\<close>

lemma f32_consts:
  "f32_lit 0.5 = Finite False (1 / 2)"
  "f32_sub one32 (f32_lit 0.5) = Finite False (1 / 2)"
  "f32_lit 0.6 = Finite False (5033165 / 8388608)"
  "milli32 = Finite False (8589935 / 8589934592)"
  "f32_of_int 0 = zero32"
  "f32_of_int 1 = one32"
  "f32_of_int (SCREEN_WIDTH - 4) = Finite False 124"
  by code_simp+

text \<open>
  The threshold \<^verbatim>\<open>0.6f\<close> is the least value of the format that is at least 0.6: between
  0.5 and 1 the spacing is \<open>1 / 16777216\<close>, and the value one spacing below is less
  than 0.6. So a smoothed value is at least \<^verbatim>\<open>0.6f\<close> exactly when it is at least 0.6.
\<close>

lemma threshold_neighbours:
  "(3 / 5 :: real) \<le> 5033165 / 8388608"
  "(5033165 / 8388608 - 1 / 16777216 :: real) < 3 / 5"
  "pow2 (binade (3 / 5) - 23) = 1 / 16777216"
  by (simp_all add: pow2_def binade_def eval_nat_numeral)

lemma f32_consts_normal:
  "f32_lit (1 / 2) = Finite False (1 / 2)"
  "f32_sub one32 (f32_lit (1 / 2)) = Finite False (1 / 2)"
  "f32_lit (3 / 5) = Finite False (5033165 / 8388608)"
  "f32_sub one32 (Finite False (1 / 2)) = Finite False (1 / 2)"
  using f32_consts by simp_all

text \<open>
  Known values of the format: the nearest \<^verbatim>\<open>float\<close> to 0.1, the sum \<^verbatim>\<open>0.1f + 0.2f\<close>, a tie
  that goes to the even significand, and two cases of signed zeros; then the overflow at
  the tie above the largest finite value and the tie below the smallest subnormal number.
\<close>

lemma f32_known_values:
  "f32_lit 0.1 = Finite False (13421773 / 134217728)"
  "f32_add (f32_lit 0.1) (f32_lit 0.2) = Finite False (5033165 / 16777216)"
  "f32_lit 16777217 = Finite False 16777216"
  "f32_add (Finite True 0) zero32 = zero32"
  "f32_div one32 (Finite True 0) = Infinity True"
  by code_simp+

lemma f32_overflow: "round32 False (pow2 128 - pow2 103) = Infinity False"
  by code_simp

lemma f32_underflow: "round32 True (pow2 (- 150)) = Finite True 0"
  by code_simp

section \<open>Properties of the store and of the display worker\<close>

text \<open>
  Claim C3 at a store whose mutex handle is null: \<open>get_metrics\<close> returns the stored
  snapshot, but \<open>set_metrics\<close> has no unsynchronised branch and leaves \<^verbatim>\<open>g_last\<close> as it
  was, so the snapshot written is lost.
\<close>

theorem set_metrics_null_mutex_drops_write:
  "g_last (set_metrics (boot_metrics\<lparr>phase := UI_LOADING, progress := one32\<rparr>)
             \<lparr>g_last = boot_metrics, g_last_mtx = False, g_last_writes = []\<rparr>) = boot_metrics
   \<and> boot_metrics\<lparr>phase := UI_LOADING, progress := one32\<rparr> \<noteq> boot_metrics
   \<and> get_metrics \<lparr>g_last = boot_metrics, g_last_mtx = False, g_last_writes = []\<rparr> = boot_metrics"
  by (simp add: set_metrics_def get_metrics_def boot_metrics_def)

lemma get_metrics_eq: "get_metrics s = g_last s"
  by (simp add: get_metrics_def)

lemma set_metrics_locked: "g_last_mtx s \<Longrightarrow> g_last (set_metrics m s) = m"
  by (simp add: set_metrics_def)

lemma set_metrics_unlocked: "\<not> g_last_mtx s \<Longrightarrow> set_metrics m s = s"
  by (simp add: set_metrics_def)

lemma loading_fill_w_eq:
  "loading_fill_w m =
     f32_to_int (f32_mul (Finite False 124)
        (if f32_lt (progress m) zero32 then zero32
         else if f32_gt (progress m) one32 then one32
         else progress m))"
  by (simp add: loading_fill_w_def f32_consts)

lemma fill_values:
  "f32_to_int (f32_mul (Finite False 124) zero32) = Some 0"
  "f32_to_int (f32_mul (Finite False 124) one32) = Some 124"
  "f32_to_int (f32_mul (Finite False 124) (Finite False (1 / 2))) = Some 62"
  "f32_lt (Finite False (1 / 2)) zero32 = False"
  "f32_gt (Finite False (1 / 2)) one32 = False"
  by code_simp+

lemma above_one_not_negative: "f32_gt x one32 \<Longrightarrow> \<not> f32_lt x zero32"
  by (cases x) (auto simp: f32_gt_def f32_lt.simps signed_mag_def)

lemma loading_fill_w_points:
  "progress m = Finite False (1 / 2) \<Longrightarrow> loading_fill_w m = Some 62"
  "f32_lt (progress m) zero32 \<Longrightarrow> loading_fill_w m = Some 0"
  "f32_gt (progress m) one32 \<Longrightarrow> loading_fill_w m = Some 124"
  by (simp_all add: loading_fill_w_eq fill_values above_one_not_negative)

text \<open>
  Claim C9. A tick calls exactly one renderer, chosen by the phase of the snapshot and the
  local frame counter alone: the boot frame if and only if the phase is BOOT and the counter
  is below 20, the loading view if and only if the phase is LOADING, the alert view if and
  only if the phase is ALERT, and the run view otherwise; with the phase still BOOT and the
  budget used up, the run view is drawn with the snapshot as it is. The counter advances on
  boot frames only and the store is returned unchanged. The fill width of the loading bar is
  the interior width 124 times the progress clamped to \<open>[0, 1]\<close>, computed as the sketch
  computes it: the \<^verbatim>\<open>float\<close> product cast to \<^verbatim>\<open>int\<close>. It is 0 for a progress below 0, 124
  for a progress above 1, and 62, half the interior width, at progress 0.5.
\<close>

theorem display_tick_dispatch:
  "(fst (display_tick now bf s) = DrawBootFrame bf) = (phase (g_last s) = UI_BOOT \<and> bf < 20)
   \<and> (fst (display_tick now bf s) = DrawLoading (g_last s) now) = (phase (g_last s) = UI_LOADING)
   \<and> (fst (display_tick now bf s) = DrawAlert (g_last s) now) = (phase (g_last s) = UI_ALERT)
   \<and> (fst (display_tick now bf s) = DrawRun (g_last s))
       = (phase (g_last s) = UI_RUN \<or> (phase (g_last s) = UI_BOOT \<and> \<not> bf < 20))
   \<and> (phase (g_last s) = UI_BOOT \<and> \<not> bf < 20
        \<longrightarrow> fst (display_tick now bf s) = DrawRun (g_last s))
   \<and> fst (snd (display_tick now bf s)) = (if phase (g_last s) = UI_BOOT \<and> bf < 20 then bf + 1 else bf)
   \<and> snd (snd (display_tick now bf s)) = s
   \<and> loading_fill_w m
       = f32_to_int (f32_mul (f32_of_int (SCREEN_WIDTH - 4))
           (if f32_lt (progress m) zero32 then zero32
            else if f32_gt (progress m) one32 then one32
            else progress m))
   \<and> (f32_lt (progress m) zero32 \<longrightarrow> loading_fill_w m = Some 0)
   \<and> (f32_gt (progress m) one32 \<longrightarrow> loading_fill_w m = Some (SCREEN_WIDTH - 4))
   \<and> (progress m = Finite False (1 / 2) \<longrightarrow>
         loading_fill_w m = Some 62 \<and> 2 * 62 = SCREEN_WIDTH - 4)"
proof -
  have view: "(fst (display_tick now bf s) = DrawBootFrame bf) = (phase (g_last s) = UI_BOOT \<and> bf < 20)
   \<and> (fst (display_tick now bf s) = DrawLoading (g_last s) now) = (phase (g_last s) = UI_LOADING)
   \<and> (fst (display_tick now bf s) = DrawAlert (g_last s) now) = (phase (g_last s) = UI_ALERT)
   \<and> (fst (display_tick now bf s) = DrawRun (g_last s))
       = (phase (g_last s) = UI_RUN \<or> (phase (g_last s) = UI_BOOT \<and> \<not> bf < 20))"
    by (cases "phase (g_last s)") (simp_all add: display_tick_def get_metrics_eq Let_def)
  have rest: "fst (snd (display_tick now bf s))
       = (if phase (g_last s) = UI_BOOT \<and> bf < 20 then bf + 1 else bf)
   \<and> snd (snd (display_tick now bf s)) = s"
    by (simp add: display_tick_def get_metrics_eq Let_def)
  have w: "loading_fill_w m
       = f32_to_int (f32_mul (f32_of_int (SCREEN_WIDTH - 4))
           (if f32_lt (progress m) zero32 then zero32
            else if f32_gt (progress m) one32 then one32
            else progress m))"
    by (simp add: loading_fill_w_eq f32_consts)
  have lo: "f32_lt (progress m) zero32 \<longrightarrow> loading_fill_w m = Some 0"
    by (simp add: loading_fill_w_points)
  have hi: "f32_gt (progress m) one32 \<longrightarrow> loading_fill_w m = Some (SCREEN_WIDTH - 4)"
    by (simp add: loading_fill_w_points SCREEN_WIDTH_def)
  have half: "progress m = Finite False (1 / 2) \<longrightarrow>
         loading_fill_w m = Some 62 \<and> 2 * 62 = SCREEN_WIDTH - 4"
    by (simp add: loading_fill_w_points SCREEN_WIDTH_def)
  from view rest w lo hi half show ?thesis
    by blast
qed

theorem display_tick_dispatch_witness:
  "fst (display_tick 2000 20 \<lparr>g_last = boot_metrics, g_last_mtx = True, g_last_writes = []\<rparr>)
     = DrawRun boot_metrics
   \<and> loading_fill_w (boot_metrics\<lparr>phase := UI_LOADING, progress := Finite False (1 / 2)\<rparr>) = Some 62
   \<and> loading_fill_w (boot_metrics\<lparr>phase := UI_LOADING,
        progress := f32_div (f32_of_nat 1) (f32_of_nat 31)\<rparr>) = Some 4"
proof -
  have a: "phase (g_last \<lparr>g_last = boot_metrics, g_last_mtx = True, g_last_writes = []\<rparr>) = UI_BOOT
    \<and> \<not> (20::nat) < 20"
    by (simp add: boot_metrics_def)
  have b: "progress (boot_metrics\<lparr>phase := UI_LOADING, progress := Finite False (1 / 2)\<rparr>)
      = Finite False (1 / 2)"
    by simp
  note t = display_tick_dispatch[of 2000 20
      "\<lparr>g_last = boot_metrics, g_last_mtx = True, g_last_writes = []\<rparr>"
      "boot_metrics\<lparr>phase := UI_LOADING, progress := Finite False (1 / 2)\<rparr>"]
  from t a have 1: "fst (display_tick 2000 20
      \<lparr>g_last = boot_metrics, g_last_mtx = True, g_last_writes = []\<rparr>) = DrawRun boot_metrics"
    by simp
  from t b have 2: "loading_fill_w (boot_metrics\<lparr>phase := UI_LOADING,
      progress := Finite False (1 / 2)\<rparr>) = Some 62"
    by blast
  have 3: "loading_fill_w (boot_metrics\<lparr>phase := UI_LOADING,
        progress := f32_div (f32_of_nat 1) (f32_of_nat 31)\<rparr>) = Some 4"
    by code_simp
  from 1 2 3 show ?thesis by blast
qed

section \<open>Properties of the decision logic\<close>

lemma length3E:
  assumes "length (h :: 'a list) = 3"
  obtains x y z where "h = [x, y, z]"
proof -
  from assms obtain x t where h: "h = x # t" "length t = 2"
    by (cases h) auto
  then obtain y u where t: "t = y # u" "length u = 1"
    by (cases t) auto
  then obtain z where "u = [z]"
    by (cases u) auto
  with h t that show thesis by simp
qed

lemma idx3_cases: "(i::nat) < 3 \<Longrightarrow> i = 0 \<or> i = 1 \<or> i = 2"
  by arith

lemma upt3: "[0..<3] = [0, 1, 2]"
  by (simp add: upt_rec)

lemma vote_sum_eq:
  assumes "length (h :: int list) = 3"
  shows "foldl (\<lambda>a k. a + h ! k) 0 [0..<VOTE_N] = sum_list h"
proof -
  from assms obtain x y z where "h = [x, y, z]" by (rule length3E)
  then show ?thesis by (simp add: VOTE_N_def upt3)
qed

lemma decision_update_eq:
  assumes "length (vote_hist st) = VOTE_N"
  shows "decision_update p st =
     (f32_ge (f32_add (f32_mul (Finite False (1 / 2)) p)
                (f32_mul (Finite False (1 / 2)) (theft_prob_ewma st))) THEFT_THRESHOLD
        \<or> sum_list ((vote_hist st)[vote_hist_idx st := vote_bit p]) \<ge> 2,
      st\<lparr>theft_prob_ewma := f32_add (f32_mul (Finite False (1 / 2)) p)
                               (f32_mul (Finite False (1 / 2)) (theft_prob_ewma st)),
         vote_hist := (vote_hist st)[vote_hist_idx st := vote_bit p],
         vote_hist_idx := (vote_hist_idx st + 1) mod 3\<rparr>)"
proof -
  have "length ((vote_hist st)[vote_hist_idx st := vote_bit p]) = 3"
    using assms by (simp add: VOTE_N_def)
  then have "foldl (\<lambda>a k. a + (vote_hist st)[vote_hist_idx st := vote_bit p] ! k) 0 [0..<VOTE_N]
      = sum_list ((vote_hist st)[vote_hist_idx st := vote_bit p])"
    by (rule vote_sum_eq)
  then show ?thesis
    by (simp add: decision_update_def Let_def EWMA_ALPHA_def f32_consts_normal vote_bit_def)
      (simp add: VOTE_N_def)
qed

lemma ring_push:
  assumes "length (h :: int list) = 3" and "i < 3"
  shows "drop ((i + 1) mod 3) (h[i := b]) @ take ((i + 1) mod 3) (h[i := b])
       = tl (drop i h @ take i h) @ [b]"
proof -
  from assms(1) obtain x y z where h: "h = [x, y, z]" by (rule length3E)
  from assms(2) have "i = 0 \<or> i = 1 \<or> i = 2" by (rule idx3_cases)
  then show ?thesis
    using h by (auto simp: numeral_2_eq_2)
qed

lemma last3_push:
  assumes "3 \<le> length (xs :: int list)"
  shows "rev (take 3 (b # xs)) = tl (rev (take 3 xs)) @ [b]"
proof -
  from assms obtain x t where 1: "xs = x # t" "2 \<le> length t" by (cases xs) auto
  then obtain y u where 2: "t = y # u" "1 \<le> length u" by (cases t) auto
  then obtain z v where 3: "u = z # v" by (cases u) auto
  show ?thesis by (simp add: 1 2 3 numeral_3_eq_3)
qed

lemma decisions_snoc: "decisions (ps @ [p]) st = snd (decision_update p (decisions ps st))"
  by (simp add: decisions_def)

lemma decisions_ring:
  assumes "length (vote_hist st) = 3" and "vote_hist_idx st < 3"
  shows "length (vote_hist (decisions ps st)) = 3
       \<and> vote_hist_idx (decisions ps st) < 3
       \<and> drop (vote_hist_idx (decisions ps st)) (vote_hist (decisions ps st))
           @ take (vote_hist_idx (decisions ps st)) (vote_hist (decisions ps st))
         = rev (take 3 (rev (map vote_bit ps)
                 @ rev (drop (vote_hist_idx st) (vote_hist st) @ take (vote_hist_idx st) (vote_hist st))))"
proof (induction ps rule: rev_induct)
  case Nil
  with assms show ?case by (simp add: decisions_def)
next
  case (snoc p ps)
  let ?s = "decisions ps st"
  from snoc have len: "length (vote_hist ?s) = 3" and idx: "vote_hist_idx ?s < 3" by simp_all
  have upd: "decisions (ps @ [p]) st =
      ?s\<lparr>theft_prob_ewma := f32_add (f32_mul (Finite False (1 / 2)) p)
                             (f32_mul (Finite False (1 / 2)) (theft_prob_ewma ?s)),
         vote_hist := (vote_hist ?s)[vote_hist_idx ?s := vote_bit p],
         vote_hist_idx := (vote_hist_idx ?s + 1) mod 3\<rparr>"
    using len by (simp add: decisions_snoc decision_update_eq VOTE_N_def)
  have "3 \<le> length (rev (map vote_bit ps)
       @ rev (drop (vote_hist_idx st) (vote_hist st) @ take (vote_hist_idx st) (vote_hist st)))"
    using assms by simp
  from last3_push[OF this, of "vote_bit p"] ring_push[OF len idx, of "vote_bit p"] snoc
  show ?case
    by (simp add: upd)
qed


lemma label_step_fields:
  "p_theft (label_step a e) = (if label_has (fst e) ''theft'' then f32_add (p_theft a) (snd e) else p_theft a)"
  "p_tamper (label_step a e) = (if label_has (fst e) ''tamper'' then f32_add (p_tamper a) (snd e) else p_tamper a)"
  "p_normal (label_step a e) = (if label_has (fst e) ''normal'' then f32_add (p_normal a) (snd e) else p_normal a)"
  "p_on (label_step a e) = (if label_has (fst e) ''on'' then f32_add (p_on a) (snd e) else p_on a)"
  "p_off (label_step a e) = (if label_has (fst e) ''off'' then f32_add (p_off a) (snd e) else p_off a)"
  by (simp_all add: label_step_def Let_def)

lemma label_fold:
  "foldl label_step a res =
     \<lparr>p_theft = foldl f32_add (p_theft a) (map snd (filter (\<lambda>e. label_has (fst e) ''theft'') res)),
      p_normal = foldl f32_add (p_normal a) (map snd (filter (\<lambda>e. label_has (fst e) ''normal'') res)),
      p_tamper = foldl f32_add (p_tamper a) (map snd (filter (\<lambda>e. label_has (fst e) ''tamper'') res)),
      p_on = foldl f32_add (p_on a) (map snd (filter (\<lambda>e. label_has (fst e) ''on'') res)),
      p_off = foldl f32_add (p_off a) (map snd (filter (\<lambda>e. label_has (fst e) ''off'') res))\<rparr>"
proof (induction res arbitrary: a)
  case Nil
  then show ?case by simp
next
  case (Cons e res)
  show ?case
    by (simp add: Cons.IH label_step_fields)
qed

lemma theft_metric_from_labels_eq:
  "theft_metric_from_labels res relay_on =
     (if f32_gt (f32_add (label_sum ''theft'' res) (label_sum ''tamper'' res)) zero32
        then f32_add (label_sum ''theft'' res) (label_sum ''tamper'' res)
      else if f32_gt (label_sum ''normal'' res) zero32 then f32_sub one32 (label_sum ''normal'' res)
      else if f32_gt (label_sum ''on'' res) zero32 \<or> f32_gt (label_sum ''off'' res) zero32
        then (if relay_on then label_sum ''on'' res else label_sum ''off'' res)
      else f32_sub one32 (label_sum ''normal'' res))"
  by (simp add: theft_metric_from_labels_def label_fold label_sum_def Let_def)

text \<open>
  Claim C2, as the code has it. For a classification in which no label contains both
  \<open>theft\<close> and \<open>tamper\<close>, the rules are tried in order, every sum being the \<^verbatim>\<open>float\<close> sum
  the loop accumulates: (a) the sum over the labels that contain \<open>theft\<close> plus the sum over
  the labels that contain \<open>tamper\<close>, if that is greater than 0; (b) else one minus the sum
  over the labels that contain \<open>normal\<close>, if that sum is greater than 0; (c) else, if the
  sum over the labels that contain \<open>on\<close> or the sum over those that contain \<open>off\<close> is
  greater than 0, the \<open>on\<close> sum when the relay is on and the \<open>off\<close> sum otherwise; (d) else
  one minus the \<open>normal\<close> sum.
\<close>

theorem theft_metric_from_labels_rules:
  assumes "list_all (\<lambda>e. \<not> (label_has (fst e) ''theft'' \<and> label_has (fst e) ''tamper'')) res"
  shows "theft_metric_from_labels res relay_on =
     (let tt = f32_add (label_sum ''theft'' res) (label_sum ''tamper'' res)
      in if f32_gt tt zero32 then tt
         else if f32_gt (label_sum ''normal'' res) zero32 then f32_sub one32 (label_sum ''normal'' res)
         else if f32_gt (label_sum ''on'' res) zero32 \<or> f32_gt (label_sum ''off'' res) zero32
           then (if relay_on then label_sum ''on'' res else label_sum ''off'' res)
         else f32_sub one32 (label_sum ''normal'' res))"
  by (simp add: theft_metric_from_labels_eq Let_def)

theorem theft_metric_from_labels_rules_witness:
  "list_all (\<lambda>e. \<not> (label_has (fst e) ''theft'' \<and> label_has (fst e) ''tamper''))
     [(''theft'', f32_lit 0.1), (''tamper'', f32_lit 0.2)]
   \<and> theft_metric_from_labels [(''theft'', f32_lit 0.1), (''tamper'', f32_lit 0.2)] True
       = Finite False (5033165 / 16777216)"
proof -
  have h: "list_all (\<lambda>e. \<not> (label_has (fst e) ''theft'' \<and> label_has (fst e) ''tamper''))
     [(''theft'', f32_lit 0.1), (''tamper'', f32_lit 0.2)]"
    by code_simp
  have v: "(let tt = f32_add (label_sum ''theft'' [(''theft'', f32_lit 0.1), (''tamper'', f32_lit 0.2)])
                       (label_sum ''tamper'' [(''theft'', f32_lit 0.1), (''tamper'', f32_lit 0.2)])
      in if f32_gt tt zero32 then tt
         else if f32_gt (label_sum ''normal'' [(''theft'', f32_lit 0.1), (''tamper'', f32_lit 0.2)]) zero32
           then f32_sub one32 (label_sum ''normal'' [(''theft'', f32_lit 0.1), (''tamper'', f32_lit 0.2)])
         else if f32_gt (label_sum ''on'' [(''theft'', f32_lit 0.1), (''tamper'', f32_lit 0.2)]) zero32
                 \<or> f32_gt (label_sum ''off'' [(''theft'', f32_lit 0.1), (''tamper'', f32_lit 0.2)]) zero32
           then (if True then label_sum ''on'' [(''theft'', f32_lit 0.1), (''tamper'', f32_lit 0.2)]
                 else label_sum ''off'' [(''theft'', f32_lit 0.1), (''tamper'', f32_lit 0.2)])
         else f32_sub one32 (label_sum ''normal'' [(''theft'', f32_lit 0.1), (''tamper'', f32_lit 0.2)]))
      = Finite False (5033165 / 16777216)"
    by code_simp
  from theft_metric_from_labels_rules[OF h, of True] v h show ?thesis
    by (simp only:) 
qed

text \<open>
  Claim C2 as it is worded takes rule (b) whenever a \<open>normal\<close> label is present. With the
  labels \<open>normal\<close> at 0 and \<open>off\<close> at 1 and the relay on, the code passes rule (b), whose
  test is a sum greater than 0, and returns the \<open>on\<close> sum 0 by rule (c); the wording gives 1.
\<close>

theorem theft_metric_presence_counterexample:
  "theft_metric_from_labels [(''normal'', zero32), (''off'', one32)] True = zero32
   \<and> theft_metric_as_specified [(''normal'', zero32), (''off'', one32)] True = one32"
  by code_simp

text \<open>
  A label that contains both \<open>theft\<close> and \<open>tamper\<close> is added to both accumulators, so its
  value counts twice in rule (a).
\<close>

lemma theft_metric_double_count:
  "theft_metric_from_labels [(''theft_tamper'', Finite False (1 / 4)), (''normal'', Finite False (3 / 4))] True
     = Finite False (1 / 2)
   \<and> theft_metric_as_specified [(''theft_tamper'', Finite False (1 / 4)), (''normal'', Finite False (3 / 4))] True
     = Finite False (1 / 4)"
  by code_simp

section \<open>Properties of the sampling and decision worker\<close>

lemma zero_fill_length:
  "length (foldl (\<lambda>g k. g[base + k := zero32]) f [a..<b]) = length f"
  by (induction b) auto

lemma zero_fill_nth:
  "j < length f \<Longrightarrow>
     foldl (\<lambda>g k. g[base + k := zero32]) f [a..<b] ! j
       = (if base + a \<le> j \<and> j < base + b then zero32 else f ! j)"
proof (induction b)
  case 0
  then show ?case by auto
next
  case (Suc b)
  let ?g = "foldl (\<lambda>g k. g[base + k := zero32]) f [a..<b]"
  have len: "length ?g = length f" by (rule zero_fill_length)
  show ?case
  proof (cases "a \<le> b")
    case False
    then show ?thesis by auto
  next
    case True
    then have step: "foldl (\<lambda>g k. g[base + k := zero32]) f [a..<Suc b] = ?g[base + b := zero32]"
      by simp
    show ?thesis
    proof (cases "j = base + b")
      case True
      with Suc.prems len \<open>a \<le> b\<close> show ?thesis
        unfolding step by simp
    next
      case False
      then have "?g[base + b := zero32] ! j = ?g ! j" by simp
      with Suc False \<open>a \<le> b\<close> show ?thesis
        unfolding step by auto
    qed
  qed
qed

lemma pack_sample_guard:
  assumes "i0 + kModelAxes cfg \<le> kTotalLen cfg"
  shows "snd (pack_sample cfg i0 v i p r f) = i0 + kModelAxes cfg"
  using assms by (simp add: pack_sample_def Let_def)

lemma pack_sample_length: "length (fst (pack_sample cfg i0 v i p r f)) = length f"
  by (simp add: pack_sample_def Let_def zero_fill_length)

lemma pack_sample_before:
  assumes "j < i0" and "j < length f"
  shows "fst (pack_sample cfg i0 v i p r f) ! j = f ! j"
  using assms by (simp add: pack_sample_def Let_def zero_fill_nth)

lemma pack_sample_axis:
  assumes "i0 + kModelAxes cfg \<le> kTotalLen cfg" and "length f = kTotalLen cfg"
    and "k < kModelAxes cfg"
  shows "fst (pack_sample cfg i0 v i p r f) ! (i0 + k)
       = (if k = 0 then v else if k = 1 then i else if k = 2 then p else if k = 3 then r
          else zero32)"
proof -
  have k: "k = 0 \<or> k = 1 \<or> k = 2 \<or> k = 3 \<or> 4 \<le> k" by arith
  from assms have in_range: "i0 + k < length f" by simp
  show ?thesis
    using assms k in_range
    by (auto simp: pack_sample_def Let_def zero_fill_nth)
qed


lemma sample_step_frame:
  "theft_prob_ewma (fst (sample_step cfg fw rd sl n)) = theft_prob_ewma (fst sl)"
  "vote_hist (fst (sample_step cfg fw rd sl n)) = vote_hist (fst sl)"
  "vote_hist_idx (fst (sample_step cfg fw rd sl n)) = vote_hist_idx (fst sl)"
  "status_led (fst (sample_step cfg fw rd sl n)) = status_led (fst sl)"
  "ml_out (fst (sample_step cfg fw rd sl n)) = ml_out (fst sl)"
  "g_last_mtx (fst (sample_step cfg fw rd sl n)) = g_last_mtx (fst sl)"
  by (simp_all add: sample_step_def Let_def split_beta set_metrics_def)

lemma sample_step_store:
  "\<not> fw \<Longrightarrow> g_last (fst (sample_step cfg fw rd sl n)) = g_last (fst sl)"
  "\<not> fw \<Longrightarrow> g_last_writes (fst (sample_step cfg fw rd sl n)) = g_last_writes (fst sl)"
  by (simp_all add: sample_step_def Let_def split_beta)

lemma sample_step_features:
  "features (fst (sample_step cfg fw rd sl n))
     = fst (pack_sample cfg (ix (snd sl)) (busVoltage_V (rd n))
         (f32_mul (current_mA (rd n)) milli32)
         (f32_mul (busVoltage_V (rd n)) (f32_mul (current_mA (rd n)) milli32))
         (if relayIsOn (relay_pin_high (rd n)) then one32 else zero32) (features (fst sl)))"
  "ix (snd (sample_step cfg fw rd sl n))
     = snd (pack_sample cfg (ix (snd sl)) (busVoltage_V (rd n))
         (f32_mul (current_mA (rd n)) milli32)
         (f32_mul (busVoltage_V (rd n)) (f32_mul (current_mA (rd n)) milli32))
         (if relayIsOn (relay_pin_high (rd n)) then one32 else zero32) (features (fst sl)))"
  by (simp_all add: sample_step_def Let_def split_beta set_metrics_def)

lemma sample_step_sums:
  "sumV (snd (sample_step cfg fw rd sl n)) = f32_add (sumV (snd sl)) (busVoltage_V (rd n))"
  "sumI (snd (sample_step cfg fw rd sl n))
     = f32_add (sumI (snd sl)) (f32_mul (current_mA (rd n)) milli32)"
  "sumP (snd (sample_step cfg fw rd sl n))
     = f32_add (sumP (snd sl))
         (f32_mul (busVoltage_V (rd n)) (f32_mul (current_mA (rd n)) milli32))"
  by (simp_all add: sample_step_def Let_def split_beta)

lemma loop_Suc:
  "foldl (sample_step cfg fw rd) s0 [0..<Suc m]
     = sample_step cfg fw rd (foldl (sample_step cfg fw rd) s0 [0..<m]) m"
  by simp

lemma loop_frame:
  "theft_prob_ewma (fst (foldl (sample_step cfg fw rd) s0 [0..<m])) = theft_prob_ewma (fst s0)
   \<and> vote_hist (fst (foldl (sample_step cfg fw rd) s0 [0..<m])) = vote_hist (fst s0)
   \<and> vote_hist_idx (fst (foldl (sample_step cfg fw rd) s0 [0..<m])) = vote_hist_idx (fst s0)
   \<and> status_led (fst (foldl (sample_step cfg fw rd) s0 [0..<m])) = status_led (fst s0)
   \<and> ml_out (fst (foldl (sample_step cfg fw rd) s0 [0..<m])) = ml_out (fst s0)
   \<and> g_last_mtx (fst (foldl (sample_step cfg fw rd) s0 [0..<m])) = g_last_mtx (fst s0)"
proof (induction m)
  case 0
  show ?case by simp
next
  case (Suc m)
  then show ?case
    unfolding loop_Suc by (simp only: sample_step_frame)
qed

lemma loop_store:
  assumes "\<not> fw"
  shows "g_last (fst (foldl (sample_step cfg fw rd) s0 [0..<m])) = g_last (fst s0)
       \<and> g_last_writes (fst (foldl (sample_step cfg fw rd) s0 [0..<m])) = g_last_writes (fst s0)"
proof (induction m)
  case 0
  show ?case by simp
next
  case (Suc m)
  then show ?case
    unfolding loop_Suc by (simp only: sample_step_store[OF assms])
qed

lemma sample_step_loading:
  assumes "g_last_mtx (fst sl)"
  shows "g_last (fst (sample_step cfg True rd sl n))
       = (g_last (fst sl))\<lparr>phase := UI_LOADING,
            progress := f32_div (f32_of_nat (n + 1)) (f32_of_nat (kRawCount cfg))\<rparr>"
    and "g_last_writes (fst (sample_step cfg True rd sl n))
       = g_last_writes (fst sl) @ [(g_last (fst sl))\<lparr>phase := UI_LOADING,
            progress := f32_div (f32_of_nat (n + 1)) (f32_of_nat (kRawCount cfg))\<rparr>]"
  using assms
  by (simp_all add: sample_step_def Let_def split_beta set_metrics_def get_metrics_def)

text \<open>
  While \<^verbatim>\<open>first_window\<close> is set and the mutex exists, sample \<open>n\<close> writes the snapshot with
  phase LOADING and progress \<open>(n + 1) / kRawCount\<close>, its other fields as they were.
\<close>

lemma loop_loading:
  assumes "g_last_mtx (fst s0)"
  shows "g_last_writes (fst (foldl (sample_step cfg True rd) s0 [0..<m]))
       = g_last_writes (fst s0)
         @ map (\<lambda>n. (g_last (fst s0))\<lparr>phase := UI_LOADING,
                  progress := f32_div (f32_of_nat (n + 1)) (f32_of_nat (kRawCount cfg))\<rparr>) [0..<m]
    \<and> g_last (fst (foldl (sample_step cfg True rd) s0 [0..<m]))
       = (if m = 0 then g_last (fst s0)
          else (g_last (fst s0))\<lparr>phase := UI_LOADING,
                  progress := f32_div (f32_of_nat m) (f32_of_nat (kRawCount cfg))\<rparr>)"
proof (induction m)
  case 0
  show ?case by simp
next
  case (Suc m)
  have mtx: "g_last_mtx (fst (foldl (sample_step cfg True rd) s0 [0..<m]))"
    using loop_frame[of cfg True rd s0 m] assms by simp
  from Suc show ?case
    unfolding loop_Suc by (simp add: sample_step_loading[OF mtx])
qed

lemma loop_sums:
  "sumV (snd (foldl (sample_step cfg fw rd) s0 [0..<m]))
     = foldl f32_add (sumV (snd s0)) (map (\<lambda>n. busVoltage_V (rd n)) [0..<m])
   \<and> sumI (snd (foldl (sample_step cfg fw rd) s0 [0..<m]))
     = foldl f32_add (sumI (snd s0))
         (map (\<lambda>n. f32_mul (current_mA (rd n)) milli32) [0..<m])
   \<and> sumP (snd (foldl (sample_step cfg fw rd) s0 [0..<m]))
     = foldl f32_add (sumP (snd s0))
         (map (\<lambda>n. f32_mul (busVoltage_V (rd n)) (f32_mul (current_mA (rd n)) milli32))
            [0..<m])"
proof (induction m)
  case 0
  show ?case by simp
next
  case (Suc m)
  then show ?case
    unfolding loop_Suc by (simp add: sample_step_sums)
qed

lemma static_assert_total:
  assumes "static_assert_ok cfg"
  shows "kTotalLen cfg = kRawCount cfg * kModelAxes cfg"
  using assms by (auto simp: static_assert_ok_def kModelAxes_def)

lemma loop_features:
  assumes ok: "static_assert_ok cfg"
    and len: "length (features (fst s0)) = kTotalLen cfg"
    and ix0: "ix (snd s0) = 0"
    and m: "m \<le> kRawCount cfg"
  shows "ix (snd (foldl (sample_step cfg fw rd) s0 [0..<m])) = m * kModelAxes cfg
       \<and> length (features (fst (foldl (sample_step cfg fw rd) s0 [0..<m]))) = kTotalLen cfg
       \<and> (\<forall>n<m. \<forall>k<kModelAxes cfg.
            features (fst (foldl (sample_step cfg fw rd) s0 [0..<m])) ! (n * kModelAxes cfg + k)
              = packed_axis rd n k)"
  using m
proof (induction m)
  case 0
  with len ix0 show ?case by simp
next
  case (Suc m)
  let ?s = "foldl (sample_step cfg fw rd) s0 [0..<m]"
  let ?A = "kModelAxes cfg"
  from Suc have ih: "ix (snd ?s) = m * ?A" "length (features (fst ?s)) = kTotalLen cfg"
    "\<forall>n<m. \<forall>k<?A. features (fst ?s) ! (n * ?A + k) = packed_axis rd n k"
    by simp_all
  have "Suc m * ?A \<le> kRawCount cfg * ?A"
    using Suc.prems by (intro mult_le_mono1)
  then have guard: "ix (snd ?s) + ?A \<le> kTotalLen cfg"
    by (simp add: ih(1) static_assert_total[OF ok])
  let ?pk = "pack_sample cfg (ix (snd ?s)) (busVoltage_V (rd m))
         (f32_mul (current_mA (rd m)) milli32)
         (f32_mul (busVoltage_V (rd m)) (f32_mul (current_mA (rd m)) milli32))
         (if relayIsOn (relay_pin_high (rd m)) then one32 else zero32) (features (fst ?s))"
  have f: "features (fst (foldl (sample_step cfg fw rd) s0 [0..<Suc m])) = fst ?pk"
    and i: "ix (snd (foldl (sample_step cfg fw rd) s0 [0..<Suc m])) = snd ?pk"
    unfolding loop_Suc by (simp_all only: sample_step_features)
  have 1: "snd ?pk = Suc m * ?A"
    using pack_sample_guard[OF guard] by (simp add: ih(1))
  have 2: "length (fst ?pk) = kTotalLen cfg"
    by (simp add: pack_sample_length ih(2))
  have 3: "fst ?pk ! (n * ?A + k) = packed_axis rd n k" if "n < Suc m" "k < ?A" for n k
  proof (cases "n = m")
    case True
    have "fst ?pk ! (ix (snd ?s) + k) = packed_axis rd m k"
      using pack_sample_axis[OF guard ih(2) that(2)] by (simp add: packed_axis_def)
    with True show ?thesis by (simp add: ih(1))
  next
    case False
    with that have n: "n < m" by simp
    then have "Suc n \<le> m" by simp
    then have "Suc n * ?A \<le> m * ?A" by (intro mult_le_mono1)
    with that(2) have lt: "n * ?A + k < m * ?A" by simp
    with guard have "n * ?A + k < length (features (fst ?s))"
      by (simp add: ih(1,2))
    with lt have "fst ?pk ! (n * ?A + k) = features (fst ?s) ! (n * ?A + k)"
      by (intro pack_sample_before) (simp_all add: ih(1))
    with ih(3) n that(2) show ?thesis by simp
  qed
  from 1 2 3 show ?case
    by (simp only: f i) blast
qed


lemma sample_loop_frame:
  "theft_prob_ewma (fst (sample_loop cfg fw rd st)) = theft_prob_ewma st"
  "vote_hist (fst (sample_loop cfg fw rd st)) = vote_hist st"
  "vote_hist_idx (fst (sample_loop cfg fw rd st)) = vote_hist_idx st"
  "status_led (fst (sample_loop cfg fw rd st)) = status_led st"
  "ml_out (fst (sample_loop cfg fw rd st)) = ml_out st"
  "g_last_mtx (fst (sample_loop cfg fw rd st)) = g_last_mtx st"
  using loop_frame[of cfg fw rd "(st, \<lparr>ix = 0, sumV = zero32, sumI = zero32, sumP = zero32\<rparr>)" "kRawCount cfg"]
  by (simp_all add: sample_loop_def)

lemma sample_loop_store:
  assumes "\<not> fw"
  shows "g_last (fst (sample_loop cfg fw rd st)) = g_last st"
    and "g_last_writes (fst (sample_loop cfg fw rd st)) = g_last_writes st"
  using loop_store[OF assms, of cfg rd "(st, \<lparr>ix = 0, sumV = zero32, sumI = zero32, sumP = zero32\<rparr>)" "kRawCount cfg"]
  by (simp_all add: sample_loop_def)

lemma sample_loop_loading:
  assumes "g_last_mtx st"
  shows "map (\<lambda>m. (phase m, progress m)) (g_last_writes (fst (sample_loop cfg True rd st)))
       = map (\<lambda>m. (phase m, progress m)) (g_last_writes st)
         @ map (\<lambda>n. (UI_LOADING, f32_div (f32_of_nat (n + 1)) (f32_of_nat (kRawCount cfg))))
             [0..<kRawCount cfg]"
    and "kRawCount cfg \<noteq> 0 \<Longrightarrow> g_last (fst (sample_loop cfg True rd st))
       = (g_last st)\<lparr>phase := UI_LOADING,
            progress := f32_div (f32_of_nat (kRawCount cfg)) (f32_of_nat (kRawCount cfg))\<rparr>"
  using loop_loading[of "(st, \<lparr>ix = 0, sumV = zero32, sumI = zero32, sumP = zero32\<rparr>)" cfg rd
      "kRawCount cfg"] assms
  by (simp_all add: sample_loop_def comp_def)

lemma sample_loop_means:
  "f32_div (sumV (snd (sample_loop cfg fw rd st))) (f32_of_nat (kRawCount cfg))
     = window_mean cfg (\<lambda>n. busVoltage_V (rd n))"
  "f32_div (sumI (snd (sample_loop cfg fw rd st))) (f32_of_nat (kRawCount cfg))
     = window_mean cfg (\<lambda>n. f32_mul (current_mA (rd n)) milli32)"
  "f32_div (sumP (snd (sample_loop cfg fw rd st))) (f32_of_nat (kRawCount cfg))
     = window_mean cfg
         (\<lambda>n. f32_mul (busVoltage_V (rd n)) (f32_mul (current_mA (rd n)) milli32))"
  using loop_sums[of cfg fw rd "(st, \<lparr>ix = 0, sumV = zero32, sumI = zero32, sumP = zero32\<rparr>)" "kRawCount cfg"]
  by (simp_all add: sample_loop_def window_mean_def)

lemma sample_loop_features:
  assumes "static_assert_ok cfg" and "length (features st) = kTotalLen cfg"
  shows "length (features (fst (sample_loop cfg fw rd st))) = kTotalLen cfg"
    and "\<forall>n<kRawCount cfg. \<forall>k<kModelAxes cfg.
           features (fst (sample_loop cfg fw rd st)) ! (n * kModelAxes cfg + k) = packed_axis rd n k"
  using loop_features[OF assms(1), of "(st, \<lparr>ix = 0, sumV = zero32, sumI = zero32, sumP = zero32\<rparr>)"
      "kRawCount cfg" fw rd] assms(2)
  by (simp_all add: sample_loop_def)

lemma ml_window_error:
  assumes "fst (run_classifier env (features (fst (sample_loop cfg fw (readings env) st))))
             \<noteq> EI_IMPULSE_OK"
  shows "ml_window cfg env (fw, st) =
     (fw, (fst (sample_loop cfg fw (readings env) st))
        \<lparr>ml_out := ml_out st @ [SerialPrintf (err_line
            (fst (run_classifier env (features (fst (sample_loop cfg fw (readings env) st))))))]\<rparr>)"
  using assms by (simp add: ml_window_def Let_def split_beta sample_loop_frame)

lemma decision_update_frame:
  "status_led (snd (decision_update p st)) = status_led st"
  "ml_out (snd (decision_update p st)) = ml_out st"
  "features (snd (decision_update p st)) = features st"
  "g_last (snd (decision_update p st)) = g_last st"
  "g_last_mtx (snd (decision_update p st)) = g_last_mtx st"
  "g_last_writes (snd (decision_update p st)) = g_last_writes st"
  "theft_prob_ewma (snd (decision_update p st))
     = f32_add (f32_mul (Finite False (1 / 2)) p)
         (f32_mul (Finite False (1 / 2)) (theft_prob_ewma st))"
  "vote_hist (snd (decision_update p st)) = (vote_hist st)[vote_hist_idx st := vote_bit p]"
  "vote_hist_idx (snd (decision_update p st)) = (vote_hist_idx st + 1) mod 3"
  by (simp_all add: decision_update_def Let_def EWMA_ALPHA_def f32_consts_normal vote_bit_def
      VOTE_N_def)

lemma set_metrics_frame:
  "theft_prob_ewma (set_metrics m st) = theft_prob_ewma st"
  "vote_hist (set_metrics m st) = vote_hist st"
  "vote_hist_idx (set_metrics m st) = vote_hist_idx st"
  "status_led (set_metrics m st) = status_led st"
  "ml_out (set_metrics m st) = ml_out st"
  "features (set_metrics m st) = features st"
  "g_last_mtx (set_metrics m st) = g_last_mtx st"
  by (simp_all add: set_metrics_def)

lemma ml_window_ok:
  assumes "fst (run_classifier env (features (fst (sample_loop cfg fw (readings env) st))))
             = EI_IMPULSE_OK"
  shows "fst (ml_window cfg env (fw, st)) = False"
    and "theft_prob_ewma (snd (ml_window cfg env (fw, st)))
       = theft_prob_ewma (snd (decision_update (theft_metric_from_labels
            (snd (run_classifier env (features (fst (sample_loop cfg fw (readings env) st)))))
            (relayIsOn (relay_after env))) (fst (sample_loop cfg fw (readings env) st))))"
    and "status_led (snd (ml_window cfg env (fw, st)))
       = fst (decision_update (theft_metric_from_labels
            (snd (run_classifier env (features (fst (sample_loop cfg fw (readings env) st)))))
            (relayIsOn (relay_after env))) (fst (sample_loop cfg fw (readings env) st)))"
    and "ml_out (snd (ml_window cfg env (fw, st)))
       = ml_out st @ [DigitalWrite STATUS_LED (status_led (snd (ml_window cfg env (fw, st)))),
           SerialPrintf (data_line
             (window_mean cfg (\<lambda>n. busVoltage_V (readings env n)))
             (window_mean cfg (\<lambda>n. f32_mul (current_mA (readings env n)) milli32))
             (window_mean cfg (\<lambda>n. f32_mul (busVoltage_V (readings env n))
                (f32_mul (current_mA (readings env n)) milli32)))
             (theft_prob_ewma (snd (ml_window cfg env (fw, st))))
             (status_led (snd (ml_window cfg env (fw, st)))))]"
    and "vote_hist (snd (ml_window cfg env (fw, st)))
       = vote_hist (snd (decision_update (theft_metric_from_labels
            (snd (run_classifier env (features (fst (sample_loop cfg fw (readings env) st)))))
            (relayIsOn (relay_after env))) (fst (sample_loop cfg fw (readings env) st))))"
    and "vote_hist_idx (snd (ml_window cfg env (fw, st)))
       = vote_hist_idx (snd (decision_update (theft_metric_from_labels
            (snd (run_classifier env (features (fst (sample_loop cfg fw (readings env) st)))))
            (relayIsOn (relay_after env))) (fst (sample_loop cfg fw (readings env) st))))"
    and "g_last_mtx st \<Longrightarrow> alert (g_last (snd (ml_window cfg env (fw, st))))
       = status_led (snd (ml_window cfg env (fw, st)))"
  using assms
  by (simp_all add: ml_window_def Let_def split_beta set_metrics_frame set_metrics_def
      decision_update_frame(1-6) sample_loop_frame sample_loop_means)

text \<open>
  What a classified window does to the decision state, for the window probability the
  label rules give.
\<close>

lemma ml_window_decision:
  assumes "fst (run_classifier env (features (fst (sample_loop cfg fw (readings env) st))))
             = EI_IMPULSE_OK"
    and "length (vote_hist st) = VOTE_N"
  shows "theft_prob_ewma (snd (ml_window cfg env (fw, st)))
       = f32_add (f32_mul (Finite False (1 / 2)) (theft_metric_from_labels
            (snd (run_classifier env (features (fst (sample_loop cfg fw (readings env) st)))))
            (relayIsOn (relay_after env))))
           (f32_mul (Finite False (1 / 2)) (theft_prob_ewma st))"
    and "vote_hist (snd (ml_window cfg env (fw, st)))
       = (vote_hist st)[vote_hist_idx st := vote_bit (theft_metric_from_labels
            (snd (run_classifier env (features (fst (sample_loop cfg fw (readings env) st)))))
            (relayIsOn (relay_after env)))]"
    and "vote_hist_idx (snd (ml_window cfg env (fw, st))) = (vote_hist_idx st + 1) mod 3"
    and "status_led (snd (ml_window cfg env (fw, st)))
       = (f32_ge (theft_prob_ewma (snd (ml_window cfg env (fw, st)))) THEFT_THRESHOLD
          \<or> sum_list (vote_hist (snd (ml_window cfg env (fw, st)))) \<ge> 2)"
proof -
  note w = ml_window_ok[OF assms(1)]
  have len: "length (vote_hist (fst (sample_loop cfg fw (readings env) st))) = VOTE_N"
    using assms(2) by (simp add: sample_loop_frame)
  note du = decision_update_eq[OF len]
  show "theft_prob_ewma (snd (ml_window cfg env (fw, st)))
       = f32_add (f32_mul (Finite False (1 / 2)) (theft_metric_from_labels
            (snd (run_classifier env (features (fst (sample_loop cfg fw (readings env) st)))))
            (relayIsOn (relay_after env))))
           (f32_mul (Finite False (1 / 2)) (theft_prob_ewma st))"
    unfolding w(2) by (simp add: du sample_loop_frame)
  show "vote_hist (snd (ml_window cfg env (fw, st)))
       = (vote_hist st)[vote_hist_idx st := vote_bit (theft_metric_from_labels
            (snd (run_classifier env (features (fst (sample_loop cfg fw (readings env) st)))))
            (relayIsOn (relay_after env)))]"
    unfolding w(5) by (simp add: du sample_loop_frame)
  show "vote_hist_idx (snd (ml_window cfg env (fw, st))) = (vote_hist_idx st + 1) mod 3"
    unfolding w(6) by (simp add: du sample_loop_frame)
  show "status_led (snd (ml_window cfg env (fw, st)))
       = (f32_ge (theft_prob_ewma (snd (ml_window cfg env (fw, st)))) THEFT_THRESHOLD
          \<or> sum_list (vote_hist (snd (ml_window cfg env (fw, st)))) \<ge> 2)"
    unfolding w(2,3,5) by (simp add: du)
qed

lemma ml_window_ok_writes:
  assumes "fst (run_classifier env (features (fst (sample_loop cfg fw (readings env) st))))
             = EI_IMPULSE_OK"
    and "g_last_mtx st"
  shows "map (\<lambda>m. (phase m, progress m)) (g_last_writes (snd (ml_window cfg env (fw, st))))
       = map (\<lambda>m. (phase m, progress m))
           (g_last_writes (fst (sample_loop cfg fw (readings env) st)))
         @ [(if status_led (snd (ml_window cfg env (fw, st))) then UI_ALERT else UI_RUN, one32)]"
  using assms
  by (simp add: ml_window_def Let_def split_beta set_metrics_def decision_update_frame(1-6)
      sample_loop_frame)

lemma ml_window_features:
  "features (snd (ml_window cfg env (fw, st)))
     = features (fst (sample_loop cfg fw (readings env) st))"
  by (simp add: ml_window_def Let_def split_beta set_metrics_frame decision_update_frame)

lemma taskML_snoc: "taskML cfg (envs @ [env]) st = ml_window cfg env (taskML cfg envs st)"
  by (simp add: taskML_def)

lemma taskML_features_length:
  assumes "static_assert_ok cfg"
  shows "length (features (snd (taskML cfg envs (ml_init cfg)))) = kTotalLen cfg"
proof (induction envs rule: rev_induct)
  case Nil
  show ?case by (simp add: taskML_def ml_init_def)
next
  case (snoc env envs)
  obtain fw st where fs: "taskML cfg envs (ml_init cfg) = (fw, st)"
    by (cases "taskML cfg envs (ml_init cfg)")
  with snoc have "length (features st) = kTotalLen cfg" by simp
  from sample_loop_features(1)[OF assms this] show ?case
    by (simp add: taskML_snoc fs ml_window_features)
qed

text \<open>
  Claim C7. When the model constants pass the static assertion, then after every window of
  a run (the first and each later one) the feature buffer has its full length, which is the
  number of samples times the axes per sample and hence a multiple of the axes per sample,
  and the slot of sample \<open>n\<close> holds on axis 0 the voltage, on axis 1 the current (the
  reading in milliampere times \<^verbatim>\<open>0.001f\<close>), on axis 2 the power, the \<^verbatim>\<open>float\<close> product of
  the two, on axis 3 the relay state as 1 or 0, and 0 on every further axis, for each axis
  the model has.
\<close>

theorem feature_buffer_packing:
  assumes "static_assert_ok cfg"
  shows "length (features (snd (taskML cfg (envs @ [env]) (ml_init cfg)))) = kTotalLen cfg
    \<and> kTotalLen cfg = kRawCount cfg * kModelAxes cfg
    \<and> kModelAxes cfg dvd length (features (snd (taskML cfg (envs @ [env]) (ml_init cfg))))
    \<and> (\<forall>n<kRawCount cfg. \<forall>k<kModelAxes cfg.
          features (snd (taskML cfg (envs @ [env]) (ml_init cfg))) ! (n * kModelAxes cfg + k)
            = (if k = 0 then busVoltage_V (readings env n)
               else if k = 1 then f32_mul (current_mA (readings env n)) milli32
               else if k = 2 then f32_mul (busVoltage_V (readings env n))
                                    (f32_mul (current_mA (readings env n)) milli32)
               else if k = 3 then (if relayIsOn (relay_pin_high (readings env n)) then one32 else zero32)
               else zero32))"
proof -
  obtain fw st where fs: "taskML cfg envs (ml_init cfg) = (fw, st)"
    by (cases "taskML cfg envs (ml_init cfg)")
  have len: "length (features st) = kTotalLen cfg"
    using taskML_features_length[OF assms, of envs] by (simp add: fs)
  have f: "features (snd (taskML cfg (envs @ [env]) (ml_init cfg)))
      = features (fst (sample_loop cfg fw (readings env) st))"
    by (simp add: taskML_snoc fs ml_window_features)
  have tot: "kTotalLen cfg = kRawCount cfg * kModelAxes cfg"
    using assms by (rule static_assert_total)
  have 1: "length (features (snd (taskML cfg (envs @ [env]) (ml_init cfg)))) = kTotalLen cfg"
    unfolding f using assms len by (rule sample_loop_features(1))
  have 2: "kModelAxes cfg dvd length (features (snd (taskML cfg (envs @ [env]) (ml_init cfg))))"
    unfolding 1 using tot by simp
  have 3: "\<forall>n<kRawCount cfg. \<forall>k<kModelAxes cfg.
          features (snd (taskML cfg (envs @ [env]) (ml_init cfg))) ! (n * kModelAxes cfg + k)
            = (if k = 0 then busVoltage_V (readings env n)
               else if k = 1 then f32_mul (current_mA (readings env n)) milli32
               else if k = 2 then f32_mul (busVoltage_V (readings env n))
                                    (f32_mul (current_mA (readings env n)) milli32)
               else if k = 3 then (if relayIsOn (relay_pin_high (readings env n)) then one32 else zero32)
               else zero32)"
    unfolding f using sample_loop_features(2)[OF assms len, of fw "readings env"]
    by (simp add: packed_axis_def)
  from 1 tot 2 3 show ?thesis by blast
qed

lemma demo_products:
  "f32_mul (Finite False 750) milli32 = Finite False (12582913 / 16777216)"
  "f32_mul (Finite False (23 / 2)) (f32_mul (Finite False 750) milli32)
     = Finite False (9043969 / 1048576)"
  "f32_mul (Finite False (23 / 2)) (Finite False (12582913 / 16777216))
     = Finite False (9043969 / 1048576)"
  by code_simp+

theorem feature_buffer_packing_witness:
  "static_assert_ok demo_cfg
   \<and> length (features (snd (taskML demo_cfg ([demo_env_error] @ [demo_env_normal]) (ml_init demo_cfg)))) = 10
   \<and> features (snd (taskML demo_cfg ([demo_env_error] @ [demo_env_normal]) (ml_init demo_cfg))) ! 5
       = Finite False (23 / 2)
   \<and> features (snd (taskML demo_cfg ([demo_env_error] @ [demo_env_normal]) (ml_init demo_cfg))) ! 6
       = Finite False (12582913 / 16777216)
   \<and> features (snd (taskML demo_cfg ([demo_env_error] @ [demo_env_normal]) (ml_init demo_cfg))) ! 7
       = Finite False (9043969 / 1048576)
   \<and> features (snd (taskML demo_cfg ([demo_env_error] @ [demo_env_normal]) (ml_init demo_cfg))) ! 8
       = one32
   \<and> features (snd (taskML demo_cfg ([demo_env_error] @ [demo_env_normal]) (ml_init demo_cfg))) ! 9
       = zero32"
proof -
  have ok: "static_assert_ok demo_cfg"
    by (simp add: static_assert_ok_def demo_cfg_def)
  have ax: "kModelAxes demo_cfg = 5" "kRawCount demo_cfg = 2" "kTotalLen demo_cfg = 10"
    by (simp_all add: kModelAxes_def demo_cfg_def)
  have rd: "\<And>n. readings demo_env_normal n
      = \<lparr>busVoltage_V = Finite False (23 / 2), current_mA = Finite False 750,
          relay_pin_high = True\<rparr>"
    by (simp add: demo_env_normal_def demo_readings_def)
  note t = feature_buffer_packing[OF ok, of "[demo_env_error]" demo_env_normal]
  from t have len: "length (features (snd (taskML demo_cfg ([demo_env_error] @ [demo_env_normal])
      (ml_init demo_cfg)))) = 10"
    by (simp add: ax)
  note nth = t[THEN conjunct2, THEN conjunct2, THEN conjunct2, rule_format, unfolded ax rd]
  have n0: "features (snd (taskML demo_cfg ([demo_env_error] @ [demo_env_normal])
      (ml_init demo_cfg))) ! 5 = Finite False (23 / 2)"
    using nth[of 1 0] by (simp add: demo_products)
  have n1: "features (snd (taskML demo_cfg ([demo_env_error] @ [demo_env_normal])
      (ml_init demo_cfg))) ! 6 = Finite False (12582913 / 16777216)"
    using nth[of 1 1] by (simp add: demo_products)
  have n2: "features (snd (taskML demo_cfg ([demo_env_error] @ [demo_env_normal])
      (ml_init demo_cfg))) ! 7 = Finite False (9043969 / 1048576)"
    using nth[of 1 2] by (simp add: demo_products)
  have n3: "features (snd (taskML demo_cfg ([demo_env_error] @ [demo_env_normal])
      (ml_init demo_cfg))) ! 8 = one32"
    using nth[of 1 3] by (simp add: relayIsOn_def RELAY_ACTIVE_LOW_def)
  have n4: "features (snd (taskML demo_cfg ([demo_env_error] @ [demo_env_normal])
      (ml_init demo_cfg))) ! 9 = zero32"
    using nth[of 1 4] by simp
  from ok len n0 n1 n2 n3 n4 show ?thesis
    by blast
qed

text \<open>
  Claim C5, as the code has it. When the classifier returns a status other than
  \<^verbatim>\<open>EI_IMPULSE_OK\<close>, the window prints exactly one line, \<open>ERR:Classifier(code)\<close> with the
  status in decimal, and nothing else: no DATA line and no write of the status LED. The
  smoothed value, the vote history, its index and the LED are as before the window. The
  snapshot is not written after sampling: it is as the sample loop left it, which is as
  before the window whenever \<^verbatim>\<open>first_window\<close> is false. The local \<^verbatim>\<open>first_window\<close> keeps
  its value and the loop goes on with the next window from this state.
\<close>

theorem classifier_error_skips_window:
  assumes "fst (run_classifier env (features (fst (sample_loop cfg fw (readings env) st))))
             \<noteq> EI_IMPULSE_OK"
  shows "ml_out (snd (ml_window cfg env (fw, st)))
        = ml_out st @ [SerialPrintf (''ERR:Classifier(''
            @ printf_d (fst (run_classifier env (features (fst (sample_loop cfg fw (readings env) st)))))
            @ '')'' @ [LF])]
    \<and> theft_prob_ewma (snd (ml_window cfg env (fw, st))) = theft_prob_ewma st
    \<and> vote_hist (snd (ml_window cfg env (fw, st))) = vote_hist st
    \<and> vote_hist_idx (snd (ml_window cfg env (fw, st))) = vote_hist_idx st
    \<and> status_led (snd (ml_window cfg env (fw, st))) = status_led st
    \<and> g_last (snd (ml_window cfg env (fw, st))) = g_last (fst (sample_loop cfg fw (readings env) st))
    \<and> g_last_writes (snd (ml_window cfg env (fw, st)))
        = g_last_writes (fst (sample_loop cfg fw (readings env) st))
    \<and> (\<not> fw \<longrightarrow> g_last (snd (ml_window cfg env (fw, st))) = g_last st
              \<and> g_last_writes (snd (ml_window cfg env (fw, st))) = g_last_writes st)
    \<and> fst (ml_window cfg env (fw, st)) = fw
    \<and> foldl (\<lambda>fs e. ml_window cfg e fs) (fw, st) (env # envs)
        = foldl (\<lambda>fs e. ml_window cfg e fs) (ml_window cfg env (fw, st)) envs"
proof -
  note w = ml_window_error[OF assms]
  have a: "ml_out (snd (ml_window cfg env (fw, st)))
        = ml_out st @ [SerialPrintf (''ERR:Classifier(''
            @ printf_d (fst (run_classifier env (features (fst (sample_loop cfg fw (readings env) st)))))
            @ '')'' @ [LF])]"
    by (simp add: w err_line_def)
  have b: "theft_prob_ewma (snd (ml_window cfg env (fw, st))) = theft_prob_ewma st"
    "vote_hist (snd (ml_window cfg env (fw, st))) = vote_hist st"
    "vote_hist_idx (snd (ml_window cfg env (fw, st))) = vote_hist_idx st"
    "status_led (snd (ml_window cfg env (fw, st))) = status_led st"
    by (simp_all add: w sample_loop_frame)
  have c: "g_last (snd (ml_window cfg env (fw, st))) = g_last (fst (sample_loop cfg fw (readings env) st))"
    "g_last_writes (snd (ml_window cfg env (fw, st)))
        = g_last_writes (fst (sample_loop cfg fw (readings env) st))"
    "fst (ml_window cfg env (fw, st)) = fw"
    by (simp_all add: w)
  have d: "\<not> fw \<longrightarrow> g_last (snd (ml_window cfg env (fw, st))) = g_last st
              \<and> g_last_writes (snd (ml_window cfg env (fw, st))) = g_last_writes st"
    unfolding c by (simp add: sample_loop_store)
  have e: "foldl (\<lambda>fs e. ml_window cfg e fs) (fw, st) (env # envs)
        = foldl (\<lambda>fs e. ml_window cfg e fs) (ml_window cfg env (fw, st)) envs"
    by simp
  from a b c d e show ?thesis by blast
qed


theorem classifier_error_skips_window_witness:
  "fst (run_classifier demo_env_error
          (features (fst (sample_loop demo_cfg False (readings demo_env_error) (ml_init demo_cfg)))))
     \<noteq> EI_IMPULSE_OK
   \<and> ml_out (snd (ml_window demo_cfg demo_env_error (False, ml_init demo_cfg)))
       = [SerialPrintf (''ERR:Classifier(-3)'' @ [LF])]
   \<and> theft_prob_ewma (snd (ml_window demo_cfg demo_env_error (False, ml_init demo_cfg))) = zero32
   \<and> g_last (snd (ml_window demo_cfg demo_env_error (False, ml_init demo_cfg))) = boot_metrics
   \<and> g_last_writes (snd (ml_window demo_cfg demo_env_error (False, ml_init demo_cfg))) = []"
proof -
  have h: "fst (run_classifier demo_env_error
          (features (fst (sample_loop demo_cfg False (readings demo_env_error) (ml_init demo_cfg)))))
     \<noteq> EI_IMPULSE_OK"
    by (simp add: demo_env_error_def EI_IMPULSE_OK_def)
  have status: "fst (run_classifier demo_env_error
          (features (fst (sample_loop demo_cfg False (readings demo_env_error) (ml_init demo_cfg)))))
     = - 3"
    by (simp add: demo_env_error_def)
  have rendered: "printf_d (- 3) = ''-3''"
    by (simp add: printf_d_def dec_digits.simps)
  have i: "ml_out (ml_init demo_cfg) = []" "theft_prob_ewma (ml_init demo_cfg) = zero32"
    "g_last (ml_init demo_cfg) = boot_metrics" "g_last_writes (ml_init demo_cfg) = []"
    by (simp_all add: ml_init_def)
  note t = classifier_error_skips_window[OF h, of "[]"]
  from t have a: "ml_out (snd (ml_window demo_cfg demo_env_error (False, ml_init demo_cfg)))
       = [SerialPrintf (''ERR:Classifier(-3)'' @ [LF])]"
    by (simp add: status rendered i)
  from t have b: "theft_prob_ewma (snd (ml_window demo_cfg demo_env_error (False, ml_init demo_cfg)))
       = zero32"
    by (simp add: i)
  from t have "g_last (snd (ml_window demo_cfg demo_env_error (False, ml_init demo_cfg)))
        = g_last (ml_init demo_cfg)
      \<and> g_last_writes (snd (ml_window demo_cfg demo_env_error (False, ml_init demo_cfg)))
        = g_last_writes (ml_init demo_cfg)"
    by blast
  then have c: "g_last (snd (ml_window demo_cfg demo_env_error (False, ml_init demo_cfg))) = boot_metrics"
    "g_last_writes (snd (ml_window demo_cfg demo_env_error (False, ml_init demo_cfg))) = []"
    by (simp_all add: i)
  from h a b c show ?thesis
    by blast
qed

text \<open>
  Claim C5 as it is worded leaves the snapshot unchanged for the whole window. In a first
  window whose classification fails the sample loop has already written the LOADING
  progress: the snapshot goes from phase BOOT, progress 0 to phase LOADING, progress 1.
\<close>

theorem classifier_error_first_window_counterexample:
  "fst (run_classifier demo_env_error
          (features (fst (sample_loop demo_cfg True (readings demo_env_error) (ml_init demo_cfg)))))
     \<noteq> EI_IMPULSE_OK
   \<and> phase (g_last (ml_init demo_cfg)) = UI_BOOT
   \<and> progress (g_last (ml_init demo_cfg)) = zero32
   \<and> phase (g_last (snd (ml_window demo_cfg demo_env_error (True, ml_init demo_cfg)))) = UI_LOADING
   \<and> progress (g_last (snd (ml_window demo_cfg demo_env_error (True, ml_init demo_cfg)))) = one32"
proof -
  have h: "fst (run_classifier demo_env_error
          (features (fst (sample_loop demo_cfg True (readings demo_env_error) (ml_init demo_cfg)))))
     \<noteq> EI_IMPULSE_OK"
    by (simp add: demo_env_error_def EI_IMPULSE_OK_def)
  have i: "phase (g_last (ml_init demo_cfg)) = UI_BOOT" "progress (g_last (ml_init demo_cfg)) = zero32"
    "g_last_mtx (ml_init demo_cfg)" "kRawCount demo_cfg \<noteq> 0"
    by (simp_all add: ml_init_def boot_metrics_def demo_cfg_def)
  have full: "f32_div (f32_of_nat (kRawCount demo_cfg)) (f32_of_nat (kRawCount demo_cfg)) = one32"
    by code_simp
  have "g_last (snd (ml_window demo_cfg demo_env_error (True, ml_init demo_cfg)))
      = (g_last (ml_init demo_cfg))\<lparr>phase := UI_LOADING, progress := one32\<rparr>"
    by (simp add: ml_window_error[OF h] sample_loop_loading(2)[OF i(3,4)] full)
  with h i(1,2) show ?thesis
    by simp
qed


text \<open>
  The values printed are the \<^verbatim>\<open>float\<close> values: 230.150 stands for
  \<open>7541555 / 32768\<close>, which is below it. Ties of the decimal rounding go to the even
  digit, an infinity and NaN print as words.
\<close>

lemma printf_f_values:
  "f32_lit 230.150 = Finite False (7541555 / 32768)"
  "printf_f 3 (Finite False (1 / 16)) = ''0.062''"
  "printf_f 3 (Finite True (3 / 16)) = ''-0.188''"
  "printf_f 2 (Finite False (5 / 8)) = ''0.62''"
  "printf_f 3 (Finite True 0) = ''-0.000''"
  "printf_f 3 (Infinity True) = ''-inf''"
  "printf_f 2 NaN = ''nan''"
  by code_simp+



text \<open>
  Claim C4 on a run whose first classification fails. The \<^verbatim>\<open>continue\<close> of the error
  path skips \<^verbatim>\<open>first_window = false\<close>, so the flag is still set after the first window and
  the second window writes the LOADING progress again, before its RUN snapshot. The history
  lists phase and progress of every snapshot written.
\<close>

theorem loading_writes_after_failed_first_window:
  "fst (taskML demo_cfg [demo_env_error] (ml_init demo_cfg))
   \<and> map (\<lambda>m. (phase m, progress m))
        (g_last_writes (snd (taskML demo_cfg [demo_env_error] (ml_init demo_cfg))))
      = [(UI_LOADING, Finite False (1 / 2)), (UI_LOADING, one32)]
   \<and> map (\<lambda>m. (phase m, progress m))
        (g_last_writes (snd (taskML demo_cfg [demo_env_error, demo_env_normal] (ml_init demo_cfg))))
      = [(UI_LOADING, Finite False (1 / 2)), (UI_LOADING, one32),
         (UI_LOADING, Finite False (1 / 2)), (UI_LOADING, one32), (UI_RUN, one32)]"
proof -
  let ?w1 = "ml_window demo_cfg demo_env_error (True, ml_init demo_cfg)"
  have fail: "fst (run_classifier demo_env_error f) \<noteq> EI_IMPULSE_OK" for f
    by (simp add: demo_env_error_def EI_IMPULSE_OK_def)
  have ok: "fst (run_classifier demo_env_normal f) = EI_IMPULSE_OK" for f
    by (simp add: demo_env_normal_def EI_IMPULSE_OK_def)
  have i: "g_last_mtx (ml_init demo_cfg)" "g_last_writes (ml_init demo_cfg) = []"
    "length (vote_hist (ml_init demo_cfg)) = VOTE_N"
    "theft_prob_ewma (ml_init demo_cfg) = zero32" "vote_hist (ml_init demo_cfg) = [0, 0, 0]"
    "vote_hist_idx (ml_init demo_cfg) = 0"
    by (simp_all add: ml_init_def VOTE_N_def numeral_3_eq_3)
  have steps: "map (\<lambda>n. (UI_LOADING, f32_div (f32_of_nat (Suc n)) (f32_of_nat (kRawCount demo_cfg))))
      [0..<kRawCount demo_cfg] = [(UI_LOADING, Finite False (1 / 2)), (UI_LOADING, one32)]"
    by code_simp
  have w1: "?w1 = (True, snd ?w1)"
    by (simp add: ml_window_error[OF fail])
  have frame1: "g_last_mtx (snd ?w1)" "length (vote_hist (snd ?w1)) = VOTE_N"
    "theft_prob_ewma (snd ?w1) = zero32" "vote_hist (snd ?w1) = [0, 0, 0]"
    "vote_hist_idx (snd ?w1) = 0"
    by (simp_all add: ml_window_error[OF fail] sample_loop_frame i VOTE_N_def)
  have writes1: "map (\<lambda>m. (phase m, progress m)) (g_last_writes (snd ?w1))
      = [(UI_LOADING, Finite False (1 / 2)), (UI_LOADING, one32)]"
    using sample_loop_loading(1)[OF i(1), of demo_cfg "readings demo_env_error"]
    by (simp add: ml_window_error[OF fail] i(2) steps)
  have t1: "taskML demo_cfg [demo_env_error] (ml_init demo_cfg) = ?w1"
    by (simp add: taskML_def)
  have t2: "taskML demo_cfg [demo_env_error, demo_env_normal] (ml_init demo_cfg)
      = ml_window demo_cfg demo_env_normal (True, snd ?w1)"
    using w1 by (simp add: taskML_def)
  have c: "theft_metric_from_labels [(''normal'', one32)] True = zero32"
    by code_simp
  have p: "window_prob demo_cfg demo_env_normal True (snd ?w1) = zero32"
    by (simp add: window_prob_def demo_env_normal_def relayIsOn_def RELAY_ACTIVE_LOW_def c)
  have v: "f32_add (f32_mul (Finite False (1 / 2)) zero32) (f32_mul (Finite False (1 / 2)) zero32) = zero32"
    "vote_bit zero32 = 0" "f32_ge zero32 THEFT_THRESHOLD = False"
    by code_simp+
  note dec = ml_window_decision[OF ok frame1(2), of demo_cfg True, folded window_prob_def,
      unfolded p frame1(3-5)]
  have e: "theft_prob_ewma (snd (ml_window demo_cfg demo_env_normal (True, snd ?w1))) = zero32"
    using dec(1) by (simp only: v)
  have led: "status_led (snd (ml_window demo_cfg demo_env_normal (True, snd ?w1))) = False"
    using dec(2,4) by (simp add: e v)
  have writes2: "map (\<lambda>m. (phase m, progress m))
        (g_last_writes (snd (ml_window demo_cfg demo_env_normal (True, snd ?w1))))
      = [(UI_LOADING, Finite False (1 / 2)), (UI_LOADING, one32),
         (UI_LOADING, Finite False (1 / 2)), (UI_LOADING, one32), (UI_RUN, one32)]"
    using ml_window_ok_writes[OF ok frame1(1), of demo_cfg True]
      sample_loop_loading(1)[OF frame1(1), of demo_cfg "readings demo_env_normal"]
    by (simp add: led writes1 steps)
  have "fst (taskML demo_cfg [demo_env_error] (ml_init demo_cfg))"
    unfolding t1 using w1 by (metis fst_conv)
  with writes1 writes2 show ?thesis
    unfolding t1 t2 by blast
qed

text \<open>
  Once \<^verbatim>\<open>first_window\<close> is false it stays false, and a window writes at most its RUN or
  ALERT snapshot.
\<close>

lemma no_loading_write_after_first_success:
  "\<exists>ws. g_last_writes (snd (ml_window cfg env (False, st))) = g_last_writes st @ ws
        \<and> list_all (\<lambda>m. phase m \<noteq> UI_LOADING) ws
        \<and> fst (ml_window cfg env (False, st)) = False"
proof (cases "fst (run_classifier env (features (fst (sample_loop cfg False (readings env) st))))
    = EI_IMPULSE_OK")
  case False
  then show ?thesis
    by (simp add: ml_window_error sample_loop_store)
next
  case True
  then show ?thesis
    by (cases "g_last_mtx st")
      (simp_all add: ml_window_def Let_def split_beta set_metrics_def decision_update_frame(1-6)
        sample_loop_frame sample_loop_store)
qed

text \<open>
  Every state a run reaches has the three-slot history and a write index inside it.
\<close>

lemma ml_window_votes:
  assumes "length (vote_hist st) = VOTE_N" and "vote_hist_idx st < VOTE_N"
  shows "length (vote_hist (snd (ml_window cfg env (fw, st)))) = VOTE_N
       \<and> vote_hist_idx (snd (ml_window cfg env (fw, st))) < VOTE_N"
  using assms
  by (simp add: ml_window_def Let_def split_beta set_metrics_frame sample_loop_frame
      decision_update_def VOTE_N_def)

lemma taskML_votes:
  "length (vote_hist (snd (taskML cfg envs (ml_init cfg)))) = VOTE_N
   \<and> vote_hist_idx (snd (taskML cfg envs (ml_init cfg))) < VOTE_N"
proof (induction envs rule: rev_induct)
  case Nil
  show ?case by (simp add: taskML_def ml_init_def VOTE_N_def)
next
  case (snoc env envs)
  obtain fw st where fs: "taskML cfg envs (ml_init cfg) = (fw, st)"
    by (cases "taskML cfg envs (ml_init cfg)")
  with snoc have "length (vote_hist st) = VOTE_N" "vote_hist_idx st < VOTE_N" by simp_all
  then show ?case
    unfolding taskML_snoc fs by (rule ml_window_votes)
qed

text \<open>
  Claim C1. A classified window, in a state with the three-slot history and a write index
  inside it, takes the window probability \<open>p\<close> the label rules give and sets the smoothed
  value to \<open>0.5 * p + 0.5 * ewma\<close> in \<^verbatim>\<open>float\<close> arithmetic, writes 1 if \<open>p \<ge> 0.5\<close> and 0
  otherwise into the slot at the write index, advances the index cyclically, and sets the
  alert, which it drives onto the status LED and stores in the snapshot, to true exactly
  when the new smoothed value is at least the threshold \<^verbatim>\<open>0.6f\<close> or the three slots sum to
  at least 2. So the history \<open>[1, 0, 1]\<close> gives an alert whatever the smoothed value, with
  \<open>[1, 0, 0]\<close> the alert is the threshold test alone, and a smoothed value at or above the
  threshold gives an alert whatever the history. The smoothed value starts at 0 and the
  history at zeros. The window changes the three globals as one decision update does, and
  after any run of decision updates the ring read from the write index holds the last three
  decisions, oldest first: the slot written next is the oldest.
\<close>

theorem decision_update_ewma_vote:
  assumes "fst (run_classifier env (features (fst (sample_loop cfg fw (readings env) st))))
             = EI_IMPULSE_OK"
    and "length (vote_hist st) = VOTE_N" and "vote_hist_idx st < VOTE_N"
  shows "theft_prob_ewma (snd (ml_window cfg env (fw, st)))
        = f32_add (f32_mul (Finite False (1 / 2)) (window_prob cfg env fw st))
            (f32_mul (Finite False (1 / 2)) (theft_prob_ewma st))
    \<and> vote_hist (snd (ml_window cfg env (fw, st)))
        = (vote_hist st)[vote_hist_idx st :=
            (if f32_ge (window_prob cfg env fw st) (Finite False (1 / 2)) then 1 else 0)]
    \<and> vote_hist_idx (snd (ml_window cfg env (fw, st))) = (vote_hist_idx st + 1) mod 3
    \<and> status_led (snd (ml_window cfg env (fw, st)))
        = (f32_ge (theft_prob_ewma (snd (ml_window cfg env (fw, st)))) THEFT_THRESHOLD
           \<or> sum_list (vote_hist (snd (ml_window cfg env (fw, st)))) \<ge> 2)
    \<and> (g_last_mtx st \<longrightarrow>
          alert (g_last (snd (ml_window cfg env (fw, st))))
            = status_led (snd (ml_window cfg env (fw, st))))
    \<and> THEFT_THRESHOLD = Finite False (5033165 / 8388608)
    \<and> (vote_hist (snd (ml_window cfg env (fw, st))) = [1, 0, 1] \<longrightarrow>
          status_led (snd (ml_window cfg env (fw, st))))
    \<and> (vote_hist (snd (ml_window cfg env (fw, st))) = [1, 0, 0] \<longrightarrow>
          status_led (snd (ml_window cfg env (fw, st)))
            = f32_ge (theft_prob_ewma (snd (ml_window cfg env (fw, st)))) THEFT_THRESHOLD)
    \<and> (f32_ge (theft_prob_ewma (snd (ml_window cfg env (fw, st)))) THEFT_THRESHOLD \<longrightarrow>
          status_led (snd (ml_window cfg env (fw, st))))
    \<and> theft_prob_ewma (ml_init cfg) = zero32
    \<and> vote_hist (ml_init cfg) = [0, 0, 0]
    \<and> vote_hist_idx (ml_init cfg) = 0
    \<and> theft_prob_ewma (snd (ml_window cfg env (fw, st)))
        = theft_prob_ewma (decisions [window_prob cfg env fw st] st)
    \<and> vote_hist (snd (ml_window cfg env (fw, st)))
        = vote_hist (decisions [window_prob cfg env fw st] st)
    \<and> vote_hist_idx (snd (ml_window cfg env (fw, st)))
        = vote_hist_idx (decisions [window_prob cfg env fw st] st)
    \<and> drop (vote_hist_idx (decisions ps (ml_init cfg))) (vote_hist (decisions ps (ml_init cfg)))
        @ take (vote_hist_idx (decisions ps (ml_init cfg))) (vote_hist (decisions ps (ml_init cfg)))
       = rev (take 3 (rev (map vote_bit ps) @ [0, 0, 0]))"
proof -
  note dec = ml_window_decision[OF assms(1,2), folded window_prob_def]
  have step: "theft_prob_ewma (snd (ml_window cfg env (fw, st)))
        = f32_add (f32_mul (Finite False (1 / 2)) (window_prob cfg env fw st))
            (f32_mul (Finite False (1 / 2)) (theft_prob_ewma st))"
    "vote_hist (snd (ml_window cfg env (fw, st)))
        = (vote_hist st)[vote_hist_idx st :=
            (if f32_ge (window_prob cfg env fw st) (Finite False (1 / 2)) then 1 else 0)]"
    "vote_hist_idx (snd (ml_window cfg env (fw, st))) = (vote_hist_idx st + 1) mod 3"
    using dec(1,2,3) by (simp_all add: vote_bit_def)
  note led = dec(4)
  have snap: "g_last_mtx st \<longrightarrow>
          alert (g_last (snd (ml_window cfg env (fw, st))))
            = status_led (snd (ml_window cfg env (fw, st)))"
    using ml_window_ok(7)[OF assms(1)] by blast
  have thr: "THEFT_THRESHOLD = Finite False (5033165 / 8388608)"
    by (simp add: THEFT_THRESHOLD_def f32_consts_normal)
  have v1: "vote_hist (snd (ml_window cfg env (fw, st))) = [1, 0, 1] \<longrightarrow>
          status_led (snd (ml_window cfg env (fw, st)))"
    unfolding led by simp
  have v2: "vote_hist (snd (ml_window cfg env (fw, st))) = [1, 0, 0] \<longrightarrow>
          status_led (snd (ml_window cfg env (fw, st)))
            = f32_ge (theft_prob_ewma (snd (ml_window cfg env (fw, st)))) THEFT_THRESHOLD"
    unfolding led by simp
  have v3: "f32_ge (theft_prob_ewma (snd (ml_window cfg env (fw, st)))) THEFT_THRESHOLD \<longrightarrow>
          status_led (snd (ml_window cfg env (fw, st)))"
    unfolding led by simp
  have init: "theft_prob_ewma (ml_init cfg) = zero32" "vote_hist (ml_init cfg) = [0, 0, 0]"
    "vote_hist_idx (ml_init cfg) = 0"
    by (simp_all add: ml_init_def VOTE_N_def numeral_3_eq_3)
  have link: "theft_prob_ewma (snd (ml_window cfg env (fw, st)))
        = theft_prob_ewma (decisions [window_prob cfg env fw st] st)"
    "vote_hist (snd (ml_window cfg env (fw, st)))
        = vote_hist (decisions [window_prob cfg env fw st] st)"
    "vote_hist_idx (snd (ml_window cfg env (fw, st)))
        = vote_hist_idx (decisions [window_prob cfg env fw st] st)"
    using dec(1,2,3) by (simp_all add: decisions_def decision_update_eq[OF assms(2)])
  have ring: "drop (vote_hist_idx (decisions ps (ml_init cfg))) (vote_hist (decisions ps (ml_init cfg)))
        @ take (vote_hist_idx (decisions ps (ml_init cfg))) (vote_hist (decisions ps (ml_init cfg)))
       = rev (take 3 (rev (map vote_bit ps) @ [0, 0, 0]))"
    using decisions_ring[of "ml_init cfg" ps] init by simp
  from step led snap thr v1 v2 v3 init link ring show ?thesis
    by blast
qed

theorem decision_update_ewma_vote_witness:
  "fst (run_classifier demo_env_theft
          (features (fst (sample_loop demo_cfg False (readings demo_env_theft)
             ((ml_init demo_cfg)\<lparr>theft_prob_ewma := Finite False (3355443 / 16777216)\<rparr>)))))
     = EI_IMPULSE_OK
   \<and> length (vote_hist ((ml_init demo_cfg)\<lparr>theft_prob_ewma := Finite False (3355443 / 16777216)\<rparr>))
       = VOTE_N
   \<and> vote_hist_idx ((ml_init demo_cfg)\<lparr>theft_prob_ewma := Finite False (3355443 / 16777216)\<rparr>)
       < VOTE_N
   \<and> theft_prob_ewma (snd (ml_window demo_cfg demo_env_theft
        (False, (ml_init demo_cfg)\<lparr>theft_prob_ewma := Finite False (3355443 / 16777216)\<rparr>)))
       = Finite False (5033165 / 8388608)
   \<and> vote_hist (snd (ml_window demo_cfg demo_env_theft
        (False, (ml_init demo_cfg)\<lparr>theft_prob_ewma := Finite False (3355443 / 16777216)\<rparr>)))
       = [1, 0, 0]
   \<and> status_led (snd (ml_window demo_cfg demo_env_theft
        (False, (ml_init demo_cfg)\<lparr>theft_prob_ewma := Finite False (3355443 / 16777216)\<rparr>)))"
proof -
  let ?st = "(ml_init demo_cfg)\<lparr>theft_prob_ewma := Finite False (3355443 / 16777216)\<rparr>"
  have h: "fst (run_classifier demo_env_theft
          (features (fst (sample_loop demo_cfg False (readings demo_env_theft) ?st))))
     = EI_IMPULSE_OK"
    by (simp add: demo_env_theft_def EI_IMPULSE_OK_def)
  have len: "length (vote_hist ?st) = VOTE_N"
    by (simp add: ml_init_def)
  have idx: "vote_hist_idx ?st < VOTE_N"
    by (simp add: ml_init_def VOTE_N_def)
  have i: "theft_prob_ewma ?st = Finite False (3355443 / 16777216)" "vote_hist ?st = [0, 0, 0]"
    "vote_hist_idx ?st = 0"
    by (simp_all add: ml_init_def VOTE_N_def numeral_3_eq_3)
  have c: "theft_metric_from_labels [(''theft'', one32)] True = one32"
    by code_simp
  have p: "window_prob demo_cfg demo_env_theft False ?st = one32"
    by (simp add: window_prob_def demo_env_theft_def relayIsOn_def RELAY_ACTIVE_LOW_def c)
  have v: "f32_add (f32_mul (Finite False (1 / 2)) one32)
             (f32_mul (Finite False (1 / 2)) (Finite False (3355443 / 16777216)))
           = Finite False (5033165 / 8388608)"
    "f32_ge one32 (Finite False (1 / 2))"
    "f32_ge (Finite False (5033165 / 8388608)) THEFT_THRESHOLD"
    by code_simp+
  note t = decision_update_ewma_vote[OF h len idx, unfolded p i]
  from t have e: "theft_prob_ewma (snd (ml_window demo_cfg demo_env_theft (False, ?st)))
       = Finite False (5033165 / 8388608)"
    by (simp only: v)
  from t have votes: "vote_hist (snd (ml_window demo_cfg demo_env_theft (False, ?st))) = [1, 0, 0]"
    by (simp add: v)
  from t have "status_led (snd (ml_window demo_cfg demo_env_theft (False, ?st)))
        = (f32_ge (theft_prob_ewma (snd (ml_window demo_cfg demo_env_theft (False, ?st))))
             THEFT_THRESHOLD
           \<or> sum_list (vote_hist (snd (ml_window demo_cfg demo_env_theft (False, ?st)))) \<ge> 2)"
    by blast
  then have led: "status_led (snd (ml_window demo_cfg demo_env_theft (False, ?st)))"
    by (simp add: e v)
  from h len idx e votes led show ?thesis
    by blast
qed

end
